theory Spec2Isabelle
  imports Main "HOL-Library.Word"
begin

section \<open>The test harness of \<^verbatim>\<open>unit.c\<close>\<close>

text \<open>
  \<^verbatim>\<open>unit.c\<close> is a small test harness followed by a fixed suite run by \<^verbatim>\<open>main\<close>.
  The harness keeps its state in global variables; the model threads them through
  every function as one record. The component under test (libforth) is not part of
  the file: what evaluating an expression or a statement does is an input of the
  model, an \<open>outcome\<close>.
\<close>

subsection \<open>Platform constants\<close>

text \<open>
  The signal numbers come from \<^verbatim>\<open><signal.h>\<close>, a header of the C library: they are
  parameters of the model. The same record carries what the C library gives
  the harness and the model does not compute: whether \<^verbatim>\<open>signal()\<close> resets the
  disposition to the default when the handler is entered (System V) or keeps it (BSD),
  and the rendered texts of \<^verbatim>\<open>asctime(localtime(&rawtime))\<close> and of the elapsed
  time printed with \<^verbatim>\<open>%f\<close>.
\<close>

record platform =
  SIGABRT :: nat
  SIGFPE :: nat
  SIGILL :: nat
  SIGINT :: nat
  SIGSEGV :: nat
  SIGTERM :: nat
  resets_on_delivery :: bool
  asctime_text :: string
  timer_text :: string

text \<open>The numbers of Linux, with BSD semantics of \<^verbatim>\<open>signal()\<close> (glibc).\<close>

definition linux :: platform where
  "linux = \<lparr>SIGABRT = 6, SIGFPE = 8, SIGILL = 4, SIGINT = 2, SIGSEGV = 11, SIGTERM = 15,
     resets_on_delivery = False, asctime_text = ''Thu Jan  1 00:00:00 1970\<newline>'',
     timer_text = ''0.000000''\<rparr>"

text \<open>The same numbers with System V semantics of \<^verbatim>\<open>signal()\<close>.\<close>

definition sysv :: platform where
  "sysv = linux\<lparr>resets_on_delivery := True\<rparr>"

subsection \<open>The global state\<close>

type_synonym unsigned = "32 word"

datatype disposition = SIG_DFL | Handler

text \<open>
  \<^verbatim>\<open>unsigned\<close> is taken to be 32 bits wide, so the counters wrap around at \<open>2 ^ 32\<close>.
  \<open>sigabrt\<close> is the process's disposition of \<^verbatim>\<open>SIGABRT\<close>, the only one the program
  changes; \<open>Handler\<close> stands for \<^verbatim>\<open>sig_abrt_handler\<close>. \<open>stdout\<close> and \<open>stderr\<close>
  are the texts written so far. The clock values (\<^verbatim>\<open>timer\<close>, \<^verbatim>\<open>start_time\<close>,
  \<^verbatim>\<open>end_time\<close>, \<^verbatim>\<open>rawtime\<close>) only feed the two texts of the platform record.
\<close>

record harness =
  passed :: unsigned
  failed :: unsigned
  color_on :: int
  jmpbuf_active :: int
  is_silent :: int
  current_line :: unsigned
  current_result :: int
  current_expr :: string
  caught_signal :: int
  keep_files :: int
  sigabrt :: disposition
  stdout :: string
  stderr :: string

definition initial :: harness where
  "initial = \<lparr>passed = 0, failed = 0, color_on = 0, jmpbuf_active = 0, is_silent = 0,
     current_line = 0, current_result = 0, current_expr = [], caught_signal = 0,
     keep_files = 0, sigabrt = SIG_DFL, stdout = [], stderr = []\<rparr>"

subsection \<open>Printing\<close>

fun dec_nat :: "nat \<Rightarrow> string" where
  "dec_nat n = (if n < 10 then [char_of (48 + n)]
                else dec_nat (n div 10) @ [char_of (48 + n mod 10)])"

declare dec_nat.simps [simp del]

definition dec_int :: "int \<Rightarrow> string" where
  "dec_int i = (if i < 0 then ''-'' @ dec_nat (nat (- i)) else dec_nat (nat i))"

definition printf :: "string \<Rightarrow> harness \<Rightarrow> harness" where
  "printf text s = s\<lparr>stdout := stdout s @ text\<rparr>"

definition fprintf_stderr :: "string \<Rightarrow> harness \<Rightarrow> harness" where
  "fprintf_stderr text s = s\<lparr>stderr := stderr s @ text\<rparr>"

definition esc :: string where
  "esc = [CHR 0x1B]"

definition tab :: string where
  "tab = [CHR 0x09]"

definition reset :: "harness \<Rightarrow> string" where
  "reset s = (if color_on s \<noteq> 0 then esc @ ''[0m'' else [])"

definition red :: "harness \<Rightarrow> string" where
  "red s = (if color_on s \<noteq> 0 then esc @ ''[31m'' else [])"

definition green :: "harness \<Rightarrow> string" where
  "green s = (if color_on s \<noteq> 0 then esc @ ''[32m'' else [])"

definition yellow :: "harness \<Rightarrow> string" where
  "yellow s = (if color_on s \<noteq> 0 then esc @ ''[33m'' else [])"

definition blue :: "harness \<Rightarrow> string" where
  "blue s = (if color_on s \<noteq> 0 then esc @ ''[34m'' else [])"

text \<open>
  \<^verbatim>\<open>unit_tester\<close> returns its first argument and the updated state. The line is an
  \<^verbatim>\<open>unsigned\<close> printed with \<^verbatim>\<open>%d\<close>.
\<close>

definition unit_tester :: "int \<Rightarrow> string \<Rightarrow> unsigned \<Rightarrow> harness \<Rightarrow> int \<times> harness" where
  "unit_tester test msg line s =
     (if test \<noteq> 0 then
        (let s1 = s\<lparr>passed := passed s + 1\<rparr>
         in (test, if is_silent s1 = 0
                   then printf (''      '' @ green s1 @ ''ok'' @ reset s1 @ '':'' @ tab @ msg @ ''\<newline>'') s1
                   else s1))
      else
        (let s1 = s\<lparr>failed := failed s + 1\<rparr>
         in (test, if is_silent s1 = 0
                   then printf (''  '' @ red s1 @ ''FAILED'' @ reset s1 @ '':'' @ tab @ msg
                                @ '' (line '' @ dec_int (sint line) @ '')\<newline>'') s1
                   else s1)))"

text \<open>
  \<^verbatim>\<open>print_statement\<close> of the source is \<open>print_statement_c\<close> here, the plain name
  being a command of Isabelle.
\<close>

definition print_statement_c :: "string \<Rightarrow> harness \<Rightarrow> harness" where
  "print_statement_c stmt s =
     (if is_silent s = 0
      then printf (''   '' @ blue s @ ''state'' @ reset s @ '':'' @ tab @ stmt @ ''\<newline>'') s
      else s)"

definition print_must :: "string \<Rightarrow> harness \<Rightarrow> harness" where
  "print_must must s =
     (if is_silent s = 0
      then printf (''    '' @ blue s @ ''must'' @ reset s @ '':'' @ tab @ must @ ''\<newline>'') s
      else s)"

definition print_note :: "string \<Rightarrow> harness \<Rightarrow> harness" where
  "print_note name s =
     (if is_silent s = 0 then printf (yellow s @ name @ reset s @ ''\<newline>'') s else s)"

subsection \<open>The table of signal names\<close>

text \<open>
  \<^verbatim>\<open>sig_lookup\<close> is an array of unknown size with designated initialisers: its size is
  the largest designated index plus one, the elements not named are null pointers, and
  a later initialiser of an index replaces an earlier one. A null pointer is \<open>None\<close>.
\<close>

definition MAX_SIGNALS :: nat where
  "MAX_SIGNALS = 256"

definition designated :: "(nat \<times> 'a option) list \<Rightarrow> 'a option list" where
  "designated inits =
     fold (\<lambda>(i, v) arr. arr[i := v]) inits
       (replicate (Suc (fold max (map fst inits) 0)) None)"

definition sig_lookup :: "platform \<Rightarrow> string option list" where
  "sig_lookup p = designated
     [(SIGABRT p, Some ''SIGABRT''),
      (SIGFPE p, Some ''SIGFPE''),
      (SIGILL p, Some ''SIGILL''),
      (SIGINT p, Some ''SIGINT''),
      (SIGSEGV p, Some ''SIGSEGV''),
      (SIGTERM p, Some ''SIGTERM''),
      (MAX_SIGNALS, None)]"

text \<open>
  The two ways the lookup could go wrong in C are results of the model: reading the
  array outside its bounds, and handing a null pointer to \<^verbatim>\<open>%s\<close>.
\<close>

datatype fault = OutOfBounds | NullDereference

definition read_sig_lookup :: "platform \<Rightarrow> int \<Rightarrow> fault + string option" where
  "read_sig_lookup p i =
     (if 0 \<le> i \<and> nat i < length (sig_lookup p) then Inr (sig_lookup p ! nat i)
      else Inl OutOfBounds)"

text \<open>
  The first two statements of \<^verbatim>\<open>print_caught_signal_name\<close>: the value of
  \<^verbatim>\<open>sig_name\<close> when it reaches \<^verbatim>\<open>printf\<close>. The conjunction is evaluated from the
  left and stops at the first false operand.
\<close>

definition sig_name :: "platform \<Rightarrow> int \<Rightarrow> fault + string option" where
  "sig_name p n =
     (if n > 0 \<and> n < int MAX_SIGNALS then
        (case read_sig_lookup p n of
           Inl f \<Rightarrow> Inl f
         | Inr None \<Rightarrow> Inr (Some ''UNKNOWN SIGNAL'')
         | Inr (Some name) \<Rightarrow> read_sig_lookup p n)
      else Inr (Some ''UNKNOWN SIGNAL''))"

definition print_caught_signal_name :: "platform \<Rightarrow> harness \<Rightarrow> fault + harness" where
  "print_caught_signal_name p s =
     (case sig_name p (caught_signal s) of
        Inl f \<Rightarrow> Inl f
      | Inr name \<Rightarrow>
          (if is_silent s = 0 then
             (case name of
                None \<Rightarrow> Inl NullDereference
              | Some text \<Rightarrow>
                  Inr (printf (''caught '' @ text @ '' (signal number ''
                               @ dec_int (caught_signal s) @ '')\<newline>'') s))
           else Inr s))"

subsection \<open>The signal handler\<close>

text \<open>
  \<^verbatim>\<open>sig_abrt_handler\<close> returns the new state and whether it left through
  \<^verbatim>\<open>longjmp(current_test, 1)\<close>.
\<close>

definition sig_abrt_handler :: "int \<Rightarrow> harness \<Rightarrow> harness \<times> bool" where
  "sig_abrt_handler sig s =
     (let s1 = s\<lparr>caught_signal := sig\<rparr>
      in if jmpbuf_active s1 \<noteq> 0 then (s1\<lparr>jmpbuf_active := 0\<rparr>, True) else (s1, False))"

text \<open>
  \<^verbatim>\<open>signal(SIGABRT, d)\<close>: the value returned and the new state. The value is the
  previous disposition; \<open>None\<close> would be \<^verbatim>\<open>SIG_ERR\<close>, which the call gives for an
  invalid signal number only.
\<close>

definition signal_SIGABRT :: "disposition \<Rightarrow> harness \<Rightarrow> disposition option \<times> harness" where
  "signal_SIGABRT d s = (Some (sigabrt s), s\<lparr>sigabrt := d\<rparr>)"

text \<open>
  What the delivery of \<^verbatim>\<open>SIGABRT\<close> does: with the default disposition the process
  is terminated; with the handler installed the handler runs (after the disposition
  was reset, on a platform that resets it) and either jumps or returns.
\<close>

datatype delivery = Default harness | Returned harness | Jumped harness

definition deliver_SIGABRT :: "platform \<Rightarrow> harness \<Rightarrow> delivery" where
  "deliver_SIGABRT p s =
     (case sigabrt s of
        SIG_DFL \<Rightarrow> Default s
      | Handler \<Rightarrow>
          (let s1 = (if resets_on_delivery p then s\<lparr>sigabrt := SIG_DFL\<rparr> else s);
               (s2, jumped) = sig_abrt_handler (int (SIGABRT p)) s1
           in if jumped then Jumped s2 else Returned s2))"

subsection \<open>The macros \<^verbatim>\<open>test\<close>, \<^verbatim>\<open>must\<close> and \<^verbatim>\<open>state\<close>\<close>

text \<open>
  Evaluating an expression of the suite either returns a value or calls
  \<^verbatim>\<open>abort()\<close> (a failed \<^verbatim>\<open>assert()\<close> inside the component under test), which
  raises \<^verbatim>\<open>SIGABRT\<close> and terminates the process if the handler returns. The
  evaluation does not touch the harness's variables.
\<close>

datatype outcome = Returns int | Aborts

text \<open>How a process stops, and what a step of the program leaves behind.\<close>

datatype stop = Exit int | Signalled nat | Faulted fault | Longjmp

datatype proc = Running harness | Stopped stop harness

text \<open>
  The macro \<^verbatim>\<open>test\<close> in four pieces. \<open>test_arm\<close> is lines 110 to 114 on the path
  where \<^verbatim>\<open>setjmp\<close> returns 0: its result is the state in which the expression is
  evaluated. \<open>test_passed_through\<close> is line 115, \<open>test_caught\<close> lines 117 to 119 (the
  branch taken when \<^verbatim>\<open>setjmp\<close> returns a second time), \<open>test_disarm\<close> lines 121 and
  122.
\<close>

definition test_arm :: "string \<Rightarrow> nat \<Rightarrow> harness \<Rightarrow> harness" where
  "test_arm expr line s =
     (let s1 = s\<lparr>current_line := of_nat line\<rparr>;
          s2 = s1\<lparr>current_expr := expr\<rparr>;
          s3 = snd (signal_SIGABRT Handler s2)
      in s3\<lparr>jmpbuf_active := 1\<rparr>)"

definition test_passed_through :: "int \<Rightarrow> harness \<Rightarrow> harness" where
  "test_passed_through v s =
     (let (r, s1) = unit_tester (if v \<noteq> 0 then 1 else 0) (current_expr s) (current_line s) s
      in s1\<lparr>current_result := r\<rparr>)"

definition test_caught :: "platform \<Rightarrow> harness \<Rightarrow> fault + harness" where
  "test_caught p s =
     (case print_caught_signal_name p s of
        Inl f \<Rightarrow> Inl f
      | Inr s1 \<Rightarrow>
          (let (r, s2) = unit_tester 0 (current_expr s1) (current_line s1) s1;
               s3 = s2\<lparr>current_line := of_int r\<rparr>
           in Inr (snd (signal_SIGABRT Handler s3))))"

definition test_disarm :: "harness \<Rightarrow> harness" where
  "test_disarm s = (snd (signal_SIGABRT SIG_DFL s))\<lparr>jmpbuf_active := 0\<rparr>"

definition test_macro :: "platform \<Rightarrow> string \<Rightarrow> nat \<Rightarrow> outcome \<Rightarrow> harness \<Rightarrow> proc" where
  "test_macro p expr line oc s =
     (let s1 = test_arm expr line s
      in case oc of
           Returns v \<Rightarrow> Running (test_disarm (test_passed_through v s1))
         | Aborts \<Rightarrow>
             (case deliver_SIGABRT p s1 of
                Default s2 \<Rightarrow> Stopped (Signalled (SIGABRT p)) s2
              | Returned s2 \<Rightarrow> Stopped (Signalled (SIGABRT p)) s2
              | Jumped s2 \<Rightarrow>
                  (case test_caught p s2 of
                     Inl f \<Rightarrow> Stopped (Faulted f) s2
                   | Inr s3 \<Rightarrow> Running (test_disarm s3))))"

text \<open>
  \<^verbatim>\<open>must(EXPR)\<close> stringifies its argument as it is spelled for \<^verbatim>\<open>print_must\<close> and
  hands the argument to \<^verbatim>\<open>test\<close> after macro expansion, so the text \<^verbatim>\<open>test\<close>
  stringifies is the expanded one: \<open>must\<close> is the first text, \<open>expr\<close> the second. They
  are the same for an argument that contains no macro.
\<close>

definition must_macro ::
  "platform \<Rightarrow> string \<Rightarrow> string \<Rightarrow> nat \<Rightarrow> outcome \<Rightarrow> harness \<Rightarrow> proc" where
  "must_macro p must expr line oc s =
     (case test_macro p expr line oc (print_must must s) of
        Stopped r s1 \<Rightarrow> Stopped r s1
      | Running s1 \<Rightarrow>
          (if current_result s1 = 0 then Stopped (Exit (- 1)) s1 else Running s1))"

text \<open>
  \<^verbatim>\<open>state(STMT)\<close> prints the statement and executes it with no recovery point of its
  own. A statement that aborts meets whatever disposition is in force; a jump out of
  the handler at that moment would resume inside an earlier \<^verbatim>\<open>test\<close>, which the
  model reports as \<open>Longjmp\<close> and does not follow.
\<close>

definition state_macro :: "platform \<Rightarrow> string \<Rightarrow> outcome \<Rightarrow> harness \<Rightarrow> proc" where
  "state_macro p stmt oc s =
     (let s1 = print_statement_c stmt s
      in case oc of
           Returns v \<Rightarrow> Running s1
         | Aborts \<Rightarrow>
             (case deliver_SIGABRT p s1 of
                Default s2 \<Rightarrow> Stopped (Signalled (SIGABRT p)) s2
              | Returned s2 \<Rightarrow> Stopped (Signalled (SIGABRT p)) s2
              | Jumped s2 \<Rightarrow> Stopped Longjmp s2))"

subsection \<open>The suite driver\<close>

definition unit_test_start :: "platform \<Rightarrow> string \<Rightarrow> harness \<Rightarrow> int \<times> harness" where
  "unit_test_start p unit_name s =
     (case signal_SIGABRT Handler s of
        (None, s1) \<Rightarrow> (- 1, fprintf_stderr ''signal handler installation failed'' s1)
      | (Some old, s1) \<Rightarrow>
          (0, if is_silent s1 = 0
              then printf (unit_name @ '' unit tests\<newline>'' @ asctime_text p
                           @ ''begin:\<newline>\<newline>'') s1
              else s1))"

definition unit_test_end :: "platform \<Rightarrow> string \<Rightarrow> harness \<Rightarrow> unsigned \<times> harness" where
  "unit_test_end p unit_name s =
     (failed s,
      if is_silent s = 0
      then printf (''\<newline>\<newline>'' @ unit_name @ '' unit tests\<newline>passed  ''
                   @ dec_nat (unat (passed s)) @ ''/'' @ dec_nat (unat (passed s + failed s))
                   @ ''\<newline>time    '' @ timer_text p @ ''s\<newline>'') s
      else s)"

text \<open>The logical negation of C, an \<^verbatim>\<open>int\<close> whatever the type of its operand.\<close>

definition lnot :: "'a::zero \<Rightarrow> int" where
  "lnot x = (if x = 0 then 1 else 0)"

definition usage :: "string \<Rightarrow> string" where
  "usage argv0 =
     ''libforth unit test framework\<newline>\<newline>'' @ tab @ ''usage: '' @ argv0
     @ '' [-h] [-c] [-k] [-s] [-]\<newline>\<newline>''
     @ tab @ ''-h'' @ tab
     @ ''print this help message and exit (unsuccessfully so tests do not pass)\<newline>''
     @ tab @ ''-c'' @ tab @ ''turn colorized output on (forced on)\<newline>''
     @ tab @ ''-k'' @ tab @ ''keep any temporary file\<newline>''
     @ tab @ ''-s'' @ tab @ ''silent mode\<newline>''
     @ tab @ ''-       stop processing command line arguments\<newline>\<newline>''
     @ ''This program executes are series of tests to exercise the libforth library. It\<newline>''
     @ ''will return zero on success and non zero on failure. The tests and results will\<newline>''
     @ ''be printed out as executed.\<newline>\<newline>''"

text \<open>
  The loop over the arguments: \<open>args\<close> is \<^verbatim>\<open>argv[i]\<close>, \<^verbatim>\<open>argv[i+1]\<close>, and so on.
  \<open>Running\<close> is the arrival at the label \<^verbatim>\<open>done\<close>.
\<close>

fun parse_args :: "string \<Rightarrow> string list \<Rightarrow> harness \<Rightarrow> proc" where
  "parse_args argv0 [] s = Running s"
| "parse_args argv0 ([] # args) s = Running s"
| "parse_args argv0 ((c0 # rest) # args) s =
     (if c0 \<noteq> CHR ''-'' then Running s
      else case rest of
             [] \<Rightarrow> Running s
           | c1 # cs \<Rightarrow>
               (if c1 = CHR ''s'' then parse_args argv0 args (s\<lparr>is_silent := 1\<rparr>)
                else if c1 = CHR ''h'' then Stopped (Exit (- 1)) (fprintf_stderr (usage argv0) s)
                else if c1 = CHR ''c'' then parse_args argv0 args (s\<lparr>color_on := 1\<rparr>)
                else if c1 = CHR ''k'' then parse_args argv0 args (s\<lparr>keep_files := 1\<rparr>)
                else Stopped (Exit (- 1))
                       (fprintf_stderr (usage argv0)
                          (fprintf_stderr (''invalid argument '' @ [CHR 0x27] @ c0 # rest
                                           @ [CHR 0x27] @ ''\<newline>'') s))))"

text \<open>
  The body of \<^verbatim>\<open>main\<close> is a fixed sequence of calls of \<^verbatim>\<open>print_note\<close> and of the
  macros \<^verbatim>\<open>state\<close>, \<^verbatim>\<open>test\<close> and \<^verbatim>\<open>must\<close>. A step carries the text of its
  argument, for the two assertion macros the value of \<^verbatim>\<open>__LINE__\<close>, and the outcome
  of evaluating the argument; a \<^verbatim>\<open>must\<close> carries the text of its argument as spelled
  and as expanded.
\<close>

datatype step =
    Note string
  | State string outcome
  | Test string nat outcome
  | Must string string nat outcome

fun run_step :: "platform \<Rightarrow> step \<Rightarrow> harness \<Rightarrow> proc" where
  "run_step p (Note name) s = Running (print_note name s)"
| "run_step p (State stmt oc) s = state_macro p stmt oc s"
| "run_step p (Test expr line oc) s = test_macro p expr line oc s"
| "run_step p (Must must expr line oc) s = must_macro p must expr line oc s"

fun run :: "platform \<Rightarrow> step list \<Rightarrow> harness \<Rightarrow> proc" where
  "run p [] s = Running s"
| "run p (st # sts) s =
     (case run_step p st s of
        Stopped r s1 \<Rightarrow> Stopped r s1
      | Running s1 \<Rightarrow> run p sts s1)"

text \<open>
  The four blocks of \<^verbatim>\<open>main\<close>. \<open>ev\<close> gives, for a line of \<^verbatim>\<open>unit.c\<close>, the
  outcome of evaluating the argument of the macro on that line.
\<close>

definition suite_interface :: "(nat \<Rightarrow> outcome) \<Rightarrow> step list" where
  \<open>suite_interface ev =
     [Note ''libforth.c'',
      State ''f = forth_init(MINIMUM_CORE_SIZE, stdin, stdout)'' (ev 224),
      Must ''f'' ''f'' 225 (ev 225),
      State ''core = fopen("unit.core", "wb")'' (ev 226),
      Must ''core'' ''core'' 227 (ev 227),
      Test ''0 == forth_stack_position(f)'' 230 (ev 230),
      Test ''forth_eval(f, "here ") >= 0'' 231 (ev 231),
      State ''here = forth_pop(f)'' (ev 232),
      State ''forth_push(f, here)'' (ev 233),
      Test ''forth_eval(f, "2 2 + ") >= 0'' 234 (ev 234),
      Test ''forth_pop(f) == 4'' 235 (ev 235),
      Test ''!forth_find(f, "unit-01")'' 237 (ev 237),
      Test ''forth_eval(f, ": unit-01 69 ; unit-01 ") >= 0'' 238 (ev 238),
      Test ''forth_find(f, "unit-01")'' 239 (ev 239),
      Test ''!forth_find(f, "unit-01 ")'' 240 (ev 240),
      Test ''forth_pop(f) == 69'' 241 (ev 241),
      Test ''1 == forth_stack_position(f)'' 242 (ev 242),
      Test ''forth_define_constant(f, "constant-1", 0xAA0A) >= 0'' 245 (ev 245),
      Test ''forth_define_constant(f, "constant-2", 0x5055) >= 0'' 246 (ev 246),
      Test ''forth_eval(f, "constant-1 constant-2 or") >= 0'' 247 (ev 247),
      Test ''forth_pop(f) == 0xFA5F'' 248 (ev 248),
      State ''forth_set_string_input(f, " 18 2 /")'' (ev 251),
      Test ''forth_run(f) >= 0'' 252 (ev 252),
      Test ''forth_pop(f) == 9'' 253 (ev 253),
      State ''forth_set_file_input(f, stdin)'' (ev 254),
      Test ''forth_save_core(f, core) >= 0'' 257 (ev 257),
      State ''fclose(core)'' (ev 258),
      State ''forth_push(f, 99)'' (ev 261),
      State ''forth_push(f, 98)'' (ev 262),
      Test ''forth_eval(f, "+") >= 0'' 263 (ev 263),
      Test ''forth_pop(f) == 197'' 264 (ev 264),
      Test ''1 == forth_stack_position(f)'' 265 (ev 265),
      Test ''here == forth_pop(f)'' 266 (ev 266),
      State ''forth_free(f)'' (ev 267)]\<close>

definition suite_persistence :: "int \<Rightarrow> (nat \<Rightarrow> outcome) \<Rightarrow> step list" where
  \<open>suite_persistence keep ev =
     [State ''core = fopen("unit.core", "rb")'' (ev 274),
      Must ''core'' ''core'' 275 (ev 275),
      State ''f = forth_load_core(core)'' (ev 278),
      Test ''0 == forth_stack_position(f)'' 281 (ev 281),
      Must ''f'' ''f'' 282 (ev 282),
      Test ''forth_find(f, "unit-01")'' 284 (ev 284),
      Test ''forth_eval(f, "unit-01 constant-1 *") >= 0'' 285 (ev 285),
      Test ''forth_pop(f) == 69 * 0xAA0A'' 286 (ev 286),
      Test ''0 == forth_stack_position(f)'' 287 (ev 287),
      State ''forth_free(f)'' (ev 289),
      State ''fclose(core)'' (ev 290)]
     @ (if keep = 0 then [State ''remove("unit.core")'' (ev 292)] else [])\<close>

definition suite_words :: "(nat \<Rightarrow> outcome) \<Rightarrow> step list" where
  \<open>suite_words ev =
     [State ''f = forth_init(MINIMUM_CORE_SIZE, stdin, stdout)'' (ev 303),
      Must ''f'' ''f'' 304 (ev 304),
      Test ''forth_eval(f, ": if-test if 0x55 else 0xAA then ;") >= 0'' 308 (ev 308),
      Test ''forth_eval(f, "0 if-test") >= 0'' 309 (ev 309),
      Test ''forth_pop(f) == 0xAA'' 310 (ev 310),
      State ''forth_push(f, 1)'' (ev 311),
      Test ''forth_eval(f, "if-test") >= 0'' 312 (ev 312),
      Test ''forth_pop(f) == 0x55'' 313 (ev 313),
      Test ''forth_eval(f, " : loop-test begin 1 + dup 10 u> until ;") >= 0'' 316 (ev 316),
      Test ''forth_eval(f, " 1 loop-test") >= 0'' 317 (ev 317),
      Test ''forth_pop(f) == 11'' 318 (ev 318),
      Test ''forth_eval(f, " 39 loop-test") >= 0'' 319 (ev 319),
      Test ''forth_pop(f) == 40'' 320 (ev 320),
      Test ''forth_eval(f, " 1 2 3 rot ( 1 2 3 -- 2 3 1 )") >= 0'' 323 (ev 323),
      Test ''forth_pop(f) == 1'' 324 (ev 324),
      Test ''forth_pop(f) == 3'' 325 (ev 325),
      Test ''forth_pop(f) == 2'' 326 (ev 326),
      Test ''forth_eval(f, " 1 2 3 -rot ") >= 0'' 329 (ev 329),
      Test ''forth_pop(f) == 2'' 330 (ev 330),
      Test ''forth_pop(f) == 1'' 331 (ev 331),
      Test ''forth_pop(f) == 3'' 332 (ev 332),
      Test ''forth_eval(f, " 3 4 5 nip ") >= 0'' 335 (ev 335),
      Test ''forth_pop(f) == 5'' 336 (ev 336),
      Test ''forth_pop(f) == 3'' 337 (ev 337),
      Test ''forth_eval(f, " here 32 allot here swap - ") >= 0'' 340 (ev 340),
      Test ''forth_pop(f) == 32'' 341 (ev 341),
      Test ''forth_eval(f, " 67 23 tuck ") >= 0'' 344 (ev 344),
      Test ''forth_pop(f) == 23'' 345 (ev 345),
      Test ''forth_pop(f) == 67'' 346 (ev 346),
      Test ''forth_pop(f) == 23'' 347 (ev 347),
      State ''forth_free(f)'' (ev 350)]\<close>

definition suite_internals :: "(nat \<Rightarrow> outcome) \<Rightarrow> step list" where
  \<open>suite_internals ev =
     [State ''f = forth_init(MINIMUM_CORE_SIZE, stdin, stdout)'' (ev 355),
      Must ''f'' ''f'' 356 (ev 356),
      Test ''forth_eval(f, " base @ 0 = ") >= 0'' 365 (ev 365),
      Test ''forth_pop(f)'' 366 (ev 366),
      Test ''forth_eval(f, " `invalid @ 0 = ") >= 0'' 369 (ev 369),
      Test ''forth_pop(f)'' 370 (ev 370),
      Test ''forth_eval(f, " `source-id @ -1 = ") >= 0'' 373 (ev 373),
      Test ''forth_pop(f)'' 374 (ev 374),
      State ''forth_free(f)'' (ev 376)]\<close>

definition libforth_suite :: "int \<Rightarrow> (nat \<Rightarrow> outcome) \<Rightarrow> step list" where
  "libforth_suite keep ev =
     suite_interface ev @ suite_persistence keep ev @ suite_words ev @ suite_internals ev"

text \<open>
  \<^verbatim>\<open>main\<close> up to and without its last line: \<open>Running\<close> is the arrival at
  \<^verbatim>\<open>return !!unit_test_end("libforth")\<close>. The value of \<^verbatim>\<open>unit_test_start\<close> is
  dropped, as in the source.
\<close>

definition main_body :: "platform \<Rightarrow> string list \<Rightarrow> (nat \<Rightarrow> outcome) \<Rightarrow> proc" where
  "main_body p argv ev =
     (case (case argv of [] \<Rightarrow> Running initial
                       | argv0 # args \<Rightarrow> parse_args argv0 args initial) of
        Stopped r s \<Rightarrow> Stopped r s
      | Running s \<Rightarrow>
          (let s1 = snd (unit_test_start p ''libforth'' s)
           in run p (libforth_suite (keep_files s1) ev) s1))"

definition main :: "platform \<Rightarrow> string list \<Rightarrow> (nat \<Rightarrow> outcome) \<Rightarrow> proc" where
  "main p argv ev =
     (case main_body p argv ev of
        Stopped r s \<Rightarrow> Stopped r s
      | Running s \<Rightarrow>
          (let (f, s1) = unit_test_end p ''libforth'' s
           in Stopped (Exit (lnot (lnot f))) s1))"

subsection \<open>Notions used to state the properties\<close>

fun stopped_with :: "proc \<Rightarrow> stop option" where
  "stopped_with (Running s) = None"
| "stopped_with (Stopped r s) = Some r"

fun state_of :: "proc \<Rightarrow> harness" where
  "state_of (Running s) = s"
| "state_of (Stopped r s) = s"

text \<open>
  The outcome of an assertion is failure when its expression evaluates to zero or its
  evaluation is interrupted by the abort signal.
\<close>

fun fails :: "outcome \<Rightarrow> bool" where
  "fails (Returns v) = (v = 0)"
| "fails Aborts = True"

fun is_assertion :: "step \<Rightarrow> bool" where
  "is_assertion (Test expr line oc) = True"
| "is_assertion (Must must expr line oc) = True"
| "is_assertion (Note name) = False"
| "is_assertion (State stmt oc) = False"

fun is_failure :: "step \<Rightarrow> bool" where
  "is_failure (Test expr line oc) = fails oc"
| "is_failure (Must must expr line oc) = fails oc"
| "is_failure (Note name) = False"
| "is_failure (State stmt oc) = False"

definition assertions :: "step list \<Rightarrow> nat" where
  "assertions steps = length (filter is_assertion steps)"

definition failures :: "step list \<Rightarrow> nat" where
  "failures steps = length (filter is_failure steps)"

text \<open>
  The states in which the expressions of the assertions of a run are evaluated, in
  order: for each \<^verbatim>\<open>test\<close> or \<^verbatim>\<open>must\<close> that the run reaches, the state that
  \<open>test_arm\<close> leaves.
\<close>

fun evaluation_state :: "step \<Rightarrow> harness \<Rightarrow> harness list" where
  "evaluation_state (Test expr line oc) s = [test_arm expr line s]"
| "evaluation_state (Must must expr line oc) s = [test_arm expr line (print_must must s)]"
| "evaluation_state (Note name) s = []"
| "evaluation_state (State stmt oc) s = []"

fun evaluation_states :: "platform \<Rightarrow> step list \<Rightarrow> harness \<Rightarrow> harness list" where
  "evaluation_states p [] s = []"
| "evaluation_states p (st # sts) s =
     evaluation_state st s
     @ (case run_step p st s of
          Stopped r s1 \<Rightarrow> []
        | Running s1 \<Rightarrow> evaluation_states p sts s1)"

text \<open>Two states that differ at most in \<^verbatim>\<open>is_silent\<close> and in what was printed.\<close>

definition silent_equiv :: "harness \<Rightarrow> harness \<Rightarrow> bool" where
  "silent_equiv s t \<longleftrightarrow>
     passed s = passed t \<and> failed s = failed t \<and> color_on s = color_on t \<and>
     jmpbuf_active s = jmpbuf_active t \<and> current_line s = current_line t \<and>
     current_result s = current_result t \<and> current_expr s = current_expr t \<and>
     caught_signal s = caught_signal t \<and> keep_files s = keep_files t \<and>
     sigabrt s = sigabrt t \<and> stderr s = stderr t"

text \<open>
  The names of the table as pairs, and the name the table gives a signal number: the
  name of the last initialiser of that index when the number is between 1 and 255 and
  has one.
\<close>

definition signal_names :: "platform \<Rightarrow> (nat \<times> string) list" where
  "signal_names p =
     [(SIGABRT p, ''SIGABRT''), (SIGFPE p, ''SIGFPE''), (SIGILL p, ''SIGILL''),
      (SIGINT p, ''SIGINT''), (SIGSEGV p, ''SIGSEGV''), (SIGTERM p, ''SIGTERM'')]"

definition signal_text :: "platform \<Rightarrow> int \<Rightarrow> string" where
  "signal_text p n =
     (if 0 < n \<and> n < int MAX_SIGNALS
      then (case map_of (rev (signal_names p)) (nat n) of
              Some name \<Rightarrow> name
            | None \<Rightarrow> ''UNKNOWN SIGNAL'')
      else ''UNKNOWN SIGNAL'')"

text \<open>Behaviours of the component under test, by line of \<^verbatim>\<open>unit.c\<close>.\<close>

definition all_pass :: "nat \<Rightarrow> outcome" where
  "all_pass line = Returns 1"

definition two_failures :: "nat \<Rightarrow> outcome" where
  "two_failures line = (if line = 230 \<or> line = 231 then Returns 0 else Returns 1)"

definition abort_in_first_statement :: "nat \<Rightarrow> outcome" where
  "abort_in_first_statement line = (if line = 224 then Aborts else Returns 1)"

text \<open>
  Two short runs of the macros: an interrupted \<^verbatim>\<open>test\<close> after a passing one, and an
  interrupted \<^verbatim>\<open>must\<close> between two passing tests.
\<close>

definition stale_test :: "step list" where
  \<open>stale_test =
     [Test ''forth_eval(f, "2 2 + ") >= 0'' 234 (Returns 1),
      Test ''forth_pop(f) == 4'' 235 Aborts]\<close>

definition stale_must :: "step list" where
  \<open>stale_must =
     [Test ''0 == forth_stack_position(f)'' 230 (Returns 1),
      Must ''forth_eval(f, "here ") >= 0'' ''forth_eval(f, "here ") >= 0'' 231 Aborts,
      Test ''forth_pop(f) == 4'' 235 (Returns 1)]\<close>

text \<open>A run of four assertions: one passes, one fails, a \<^verbatim>\<open>must\<close> passes, one is interrupted.\<close>

definition four_assertions :: "step list" where
  \<open>four_assertions =
     [Test ''0 == forth_stack_position(f)'' 230 (Returns 1),
      State ''here = forth_pop(f)'' (Returns 0),
      Test ''forth_pop(f) == 4'' 235 (Returns 0),
      Must ''f'' ''f'' 225 (Returns 1),
      Test ''forth_eval(f, "2 2 + ") >= 0'' 234 Aborts]\<close>

text \<open>An interrupted \<^verbatim>\<open>test\<close> followed by a statement that aborts.\<close>

definition abort_then_abort :: "step list" where
  \<open>abort_then_abort =
     [Test ''forth_eval(f, "2 2 + ") >= 0'' 234 Aborts,
      State ''forth_push(f, 99)'' Aborts,
      Test ''forth_pop(f) == 99'' 235 (Returns 1)]\<close>

text \<open>An interrupted \<^verbatim>\<open>test\<close> followed by a statement and a \<^verbatim>\<open>must\<close>.\<close>

definition abort_then_test :: "step list" where
  \<open>abort_then_test =
     [Test ''forth_eval(f, "2 2 + ") >= 0'' 234 Aborts,
      State ''forth_push(f, 99)'' (Returns 0),
      Must ''forth_pop(f) == 99'' ''forth_pop(f) == 99'' 235 (Returns 1)]\<close>

section \<open>Properties\<close>

subsection \<open>The table of signal names is read safely\<close>

lemma length_fold_update:
  "length (fold (\<lambda>(i, v) arr. arr[i := v]) inits arr) = length arr"
  by (induction inits arbitrary: arr) (auto split: prod.splits)

lemma nth_fold_update:
  "i < length arr \<Longrightarrow>
   fold (\<lambda>(j, v) a. a[j := v]) inits arr ! i =
     (case map_of (rev inits) i of Some v \<Rightarrow> v | None \<Rightarrow> arr ! i)"
proof (induction inits arbitrary: arr)
  case Nil
  then show ?case by simp
next
  case (Cons jv inits)
  obtain j v where jv: "jv = (j, v)" by (cases jv)
  have len: "i < length (arr[j := v])" using Cons.prems by simp
  show ?case
    using Cons.IH [OF len] Cons.prems
    by (auto simp: jv map_add_def nth_list_update split: option.splits)
qed

lemma length_designated:
  "length (designated inits) = Suc (fold max (map fst inits) 0)"
  unfolding designated_def length_fold_update by (rule length_replicate)

lemma length_sig_lookup: "MAX_SIGNALS < length (sig_lookup p)"
  unfolding sig_lookup_def length_designated by simp


lemma sig_lookup_nth:
  assumes i: "i < MAX_SIGNALS"
  shows "sig_lookup p ! i = map_of (rev (signal_names p)) i"
proof -
  let ?inits = "[(SIGABRT p, Some ''SIGABRT''), (SIGFPE p, Some ''SIGFPE''),
      (SIGILL p, Some ''SIGILL''), (SIGINT p, Some ''SIGINT''),
      (SIGSEGV p, Some ''SIGSEGV''), (SIGTERM p, Some ''SIGTERM''), (MAX_SIGNALS, None)]"
  let ?n = "Suc (fold max (map fst ?inits) 0)"
  have len: "i < length (replicate ?n (None :: string option))"
    using i by simp
  have none: "replicate ?n (None :: string option) ! i = None"
    using len by (simp only: length_replicate nth_replicate)
  have "sig_lookup p ! i =
          (case map_of (rev ?inits) i of Some v \<Rightarrow> v
           | None \<Rightarrow> replicate ?n (None :: string option) ! i)"
    unfolding sig_lookup_def designated_def by (rule nth_fold_update [OF len])
  also have "\<dots> = (case map_of (rev ?inits) i of Some v \<Rightarrow> v | None \<Rightarrow> None)"
    by (simp only: none)
  also have "\<dots> = map_of (rev (signal_names p)) i"
    using i by (simp add: signal_names_def)
  finally show ?thesis .
qed

lemma sig_name_eq: "sig_name p n = Inr (Some (signal_text p n))"
proof (cases "0 < n \<and> n < int MAX_SIGNALS")
  case False
  then show ?thesis by (auto simp: sig_name_def signal_text_def)
next
  case True
  then have i: "nat n < MAX_SIGNALS" by linarith
  have "nat n < length (sig_lookup p)"
    using i length_sig_lookup [of p] by simp
  then have rd: "read_sig_lookup p n = Inr (map_of (rev (signal_names p)) (nat n))"
    using True sig_lookup_nth [OF i, of p] by (simp add: read_sig_lookup_def)
  show ?thesis using True by (simp add: sig_name_def signal_text_def rd split: option.splits)
qed

lemma print_caught_signal_name_eq:
  "print_caught_signal_name p s =
     Inr (if is_silent s = 0
          then printf (''caught '' @ signal_text p (caught_signal s) @ '' (signal number ''
                       @ dec_int (caught_signal s) @ '')\<newline>'') s
          else s)"
  by (simp add: print_caught_signal_name_def sig_name_eq)

lemma signal_text_outside:
  "n \<le> 0 \<or> int MAX_SIGNALS \<le> n \<or> nat n \<notin> fst ` set (signal_names p)
   \<Longrightarrow> signal_text p n = ''UNKNOWN SIGNAL''"
proof -
  assume a: "n \<le> 0 \<or> int MAX_SIGNALS \<le> n \<or> nat n \<notin> fst ` set (signal_names p)"
  show ?thesis
  proof (cases "0 < n \<and> n < int MAX_SIGNALS")
    case False
    then show ?thesis by (auto simp: signal_text_def)
  next
    case True
    with a have "nat n \<notin> fst ` set (rev (signal_names p))" by auto
    then have "map_of (rev (signal_names p)) (nat n) = None"
      by (simp add: map_of_eq_None_iff)
    then show ?thesis by (simp add: signal_text_def)
  qed
qed

lemma signal_text_inside:
  assumes "distinct (map fst (signal_names p))"
    and "(k, name) \<in> set (signal_names p)" and "0 < k" and "k < MAX_SIGNALS"
  shows "signal_text p (int k) = name"
proof -
  have "distinct (map fst (rev (signal_names p)))"
    using assms(1) by (simp add: rev_map [symmetric])
  moreover have "(k, name) \<in> set (rev (signal_names p))" using assms(2) by simp
  ultimately have "map_of (rev (signal_names p)) k = Some name"
    by (rule map_of_is_SomeI)
  then show ?thesis using assms(3,4) by (simp add: signal_text_def)
qed

text \<open>
  C7. The name \<^verbatim>\<open>print_caught_signal_name\<close> computes for a signal number \<open>n\<close> is
  always a string, never a fault: neither the read of \<^verbatim>\<open>sig_lookup\<close> leaves the bounds
  of the array nor does a null entry reach \<^verbatim>\<open>printf\<close>. It is the name the table gives
  \<open>n\<close>, which is \<^verbatim>\<open>UNKNOWN SIGNAL\<close> for \<open>n \<le> 0\<close>, for \<open>n \<ge> 256\<close> and for a number
  with no entry, and the entry's name for a number between 1 and 255 that has one
  (the signal numbers being distinct).
\<close>

theorem signal_name_lookup:
  "sig_name p n = Inr (Some (signal_text p n)) \<and>
   print_caught_signal_name p s =
     Inr (if is_silent s = 0
          then printf (''caught '' @ signal_text p (caught_signal s) @ '' (signal number ''
                       @ dec_int (caught_signal s) @ '')\<newline>'') s
          else s) \<and>
   (n \<le> 0 \<or> 256 \<le> n \<or> nat n \<notin> fst ` set (signal_names p)
      \<longrightarrow> signal_text p n = ''UNKNOWN SIGNAL'') \<and>
   (distinct (map fst (signal_names p)) \<and> (k, name) \<in> set (signal_names p) \<and>
    0 < k \<and> k < 256 \<longrightarrow> signal_text p (int k) = name)"
proof -
  have "n \<le> 0 \<or> 256 \<le> n \<or> nat n \<notin> fst ` set (signal_names p)
      \<longrightarrow> signal_text p n = ''UNKNOWN SIGNAL''"
    using signal_text_outside [of n p] by (simp add: MAX_SIGNALS_def)
  moreover have "distinct (map fst (signal_names p)) \<and> (k, name) \<in> set (signal_names p) \<and>
    0 < k \<and> k < 256 \<longrightarrow> signal_text p (int k) = name"
    using signal_text_inside [of p k name] by (simp add: MAX_SIGNALS_def)
  ultimately show ?thesis
    using sig_name_eq [of p n] print_caught_signal_name_eq [of p s] by blast
qed

theorem signal_name_lookup_witness:
  "sig_name linux 6 = Inr (Some ''SIGABRT'') \<and>
   sig_name linux 7 = Inr (Some ''UNKNOWN SIGNAL'') \<and>
   sig_name linux 0 = Inr (Some ''UNKNOWN SIGNAL'') \<and>
   sig_name linux 256 = Inr (Some ''UNKNOWN SIGNAL'') \<and>
   stdout (projr (print_caught_signal_name linux (initial\<lparr>caught_signal := 6\<rparr>)))
     = ''caught SIGABRT (signal number 6)\<newline>''"
proof -
  have names: "signal_names linux =
      [(6, ''SIGABRT''), (8, ''SIGFPE''), (4, ''SIGILL''), (2, ''SIGINT''), (11, ''SIGSEGV''),
       (15, ''SIGTERM'')]"
    by (simp add: signal_names_def linux_def)
  have d: "distinct (map fst (signal_names linux))" by (simp add: names)
  have a: "signal_text linux 6 = ''SIGABRT''"
    using signal_name_lookup [of linux 6 initial 6 "''SIGABRT''"] d by (simp add: names)
  have b: "signal_text linux 7 = ''UNKNOWN SIGNAL''"
    using signal_name_lookup [of linux 7 initial 6 "''SIGABRT''"] by (simp add: names)
  have c: "signal_text linux 0 = ''UNKNOWN SIGNAL''"
    using signal_name_lookup [of linux 0 initial 6 "''SIGABRT''"] by simp
  have e: "signal_text linux 256 = ''UNKNOWN SIGNAL''"
    using signal_name_lookup [of linux 256 initial 6 "''SIGABRT''"] by simp
  have f: "dec_int 6 = ''6''" by code_simp
  show ?thesis
    using signal_name_lookup [of linux 6 "initial\<lparr>caught_signal := 6\<rparr>" 6 "''SIGABRT''"]
      signal_name_lookup [of linux 7 initial 6 "''SIGABRT''"]
      signal_name_lookup [of linux 0 initial 6 "''SIGABRT''"]
      signal_name_lookup [of linux 256 initial 6 "''SIGABRT''"]
    by (simp add: a b c e f initial_def printf_def)
qed

subsection \<open>What the macros do to each variable\<close>

lemmas macro_defs =
  test_macro_def test_arm_def test_passed_through_def test_caught_def test_disarm_def
  unit_tester_def signal_SIGABRT_def deliver_SIGABRT_def sig_abrt_handler_def
  print_caught_signal_name_eq printf_def Let_def

lemma test_macro_Running: "\<exists>s'. test_macro p expr line oc s = Running s'"
  by (cases oc) (simp_all add: macro_defs)

lemma test_macro_passed:
  "passed (state_of (test_macro p expr line oc s)) = (if fails oc then passed s else passed s + 1)"
  by (cases oc) (simp_all add: macro_defs)

lemma test_macro_failed:
  "failed (state_of (test_macro p expr line oc s)) = (if fails oc then failed s + 1 else failed s)"
  by (cases oc) (simp_all add: macro_defs)

lemma test_macro_current_result:
  "current_result (state_of (test_macro p expr line oc s)) =
     (case oc of Returns v \<Rightarrow> (if v \<noteq> 0 then 1 else 0) | Aborts \<Rightarrow> current_result s)"
  by (cases oc) (simp_all add: macro_defs)

lemma test_macro_current_line:
  "current_line (state_of (test_macro p expr line oc s)) =
     (case oc of Returns v \<Rightarrow> of_nat line | Aborts \<Rightarrow> 0)"
  by (cases oc) (simp_all add: macro_defs)

lemma test_macro_disarmed:
  "jmpbuf_active (state_of (test_macro p expr line oc s)) = 0 \<and>
   sigabrt (state_of (test_macro p expr line oc s)) = SIG_DFL"
  by (cases oc) (simp_all add: macro_defs)

lemma test_macro_silent_equiv:
  "silent_equiv s t \<Longrightarrow>
   silent_equiv (state_of (test_macro p expr line oc s)) (state_of (test_macro p expr line oc t))"
  by (cases oc) (simp_all add: silent_equiv_def macro_defs)

lemma test_macro_silent:
  "is_silent s \<noteq> 0 \<Longrightarrow> stdout (state_of (test_macro p expr line oc s)) = stdout s
     \<and> is_silent (state_of (test_macro p expr line oc s)) = is_silent s"
  by (cases oc) (simp_all add: macro_defs)

lemma test_macro_is_silent:
  "is_silent (state_of (test_macro p expr line oc s)) = is_silent s"
  by (cases oc) (simp_all add: macro_defs)


lemma must_macro_eq:
  "must_macro p must expr line oc s =
     (if current_result (state_of (test_macro p expr line oc (print_must must s))) = 0
      then Stopped (Exit (- 1)) (state_of (test_macro p expr line oc (print_must must s)))
      else Running (state_of (test_macro p expr line oc (print_must must s))))"
proof -
  obtain s1 where "test_macro p expr line oc (print_must must s) = Running s1"
    using test_macro_Running by blast
  then show ?thesis by (simp add: must_macro_def)
qed

lemma print_must_fields:
  "passed (print_must expr s) = passed s" "failed (print_must expr s) = failed s"
  "current_result (print_must expr s) = current_result s"
  "is_silent (print_must expr s) = is_silent s"
  "sigabrt (print_must expr s) = sigabrt s"
  "jmpbuf_active (print_must expr s) = jmpbuf_active s"
  by (simp_all add: print_must_def printf_def)

lemma state_of_must_macro:
  "state_of (must_macro p must expr line oc s)
     = state_of (test_macro p expr line oc (print_must must s))"
  by (simp add: must_macro_eq)

lemma stopped_with_must_macro:
  "stopped_with (must_macro p must expr line oc s) =
     (if (case oc of Returns v \<Rightarrow> v = 0 | Aborts \<Rightarrow> current_result s = 0)
      then Some (Exit (- 1)) else None)"
  by (cases oc) (simp_all add: must_macro_eq test_macro_current_result print_must_fields)

lemma print_must_silent_equiv:
  "silent_equiv s t \<Longrightarrow> silent_equiv (print_must expr s) (print_must expr t)"
  by (simp add: silent_equiv_def print_must_def printf_def)

lemma print_note_silent_equiv:
  "silent_equiv s t \<Longrightarrow> silent_equiv (print_note name s) (print_note name t)"
  by (simp add: silent_equiv_def print_note_def printf_def)

lemma state_macro_silent_equiv:
  "silent_equiv s t \<Longrightarrow>
   silent_equiv (state_of (state_macro p stmt oc s)) (state_of (state_macro p stmt oc t)) \<and>
   stopped_with (state_macro p stmt oc s) = stopped_with (state_macro p stmt oc t)"
  by (cases oc)
     (auto simp: silent_equiv_def state_macro_def print_statement_c_def printf_def
        deliver_SIGABRT_def sig_abrt_handler_def Let_def split: disposition.splits)

lemma run_step_silent_equiv:
  assumes "silent_equiv s t"
  shows "silent_equiv (state_of (run_step p st s)) (state_of (run_step p st t)) \<and>
         stopped_with (run_step p st s) = stopped_with (run_step p st t)"
proof (cases st)
  case (Note name)
  then show ?thesis using assms by (simp add: print_note_silent_equiv)
next
  case (State stmt oc)
  then show ?thesis using state_macro_silent_equiv [OF assms] by simp
next
  case (Test expr line oc)
  obtain s1 t1 where "test_macro p expr line oc s = Running s1"
    "test_macro p expr line oc t = Running t1"
    using test_macro_Running by blast
  then show ?thesis using Test test_macro_silent_equiv [OF assms, of p expr line oc] by simp
next
  case (Must must expr line oc)
  have eq: "silent_equiv (print_must must s) (print_must must t)"
    using assms by (rule print_must_silent_equiv)
  have cr: "current_result s = current_result t" using assms by (simp add: silent_equiv_def)
  show ?thesis
    using Must test_macro_silent_equiv [OF eq, of p expr line oc] cr
    by (simp add: state_of_must_macro stopped_with_must_macro split: outcome.splits)
qed

lemma proc_cases:
  "stopped_with r = None \<Longrightarrow> r = Running (state_of r)"
  "stopped_with r = Some x \<Longrightarrow> r = Stopped x (state_of r)"
  by (cases r; simp)+

lemma run_silent_equiv:
  "silent_equiv s t \<Longrightarrow>
   silent_equiv (state_of (run p steps s)) (state_of (run p steps t)) \<and>
   stopped_with (run p steps s) = stopped_with (run p steps t)"
proof (induction steps arbitrary: s t)
  case Nil
  then show ?case by simp
next
  case (Cons st steps)
  note step = run_step_silent_equiv [OF Cons.prems, of p st]
  show ?case
  proof (cases "run_step p st s")
    case (Running s1)
    then have "stopped_with (run_step p st t) = None" using step by simp
    then obtain t1 where t1: "run_step p st t = Running t1"
      by (cases "run_step p st t") simp_all
    have "silent_equiv s1 t1" using step Running t1 by simp
    from Cons.IH [OF this] show ?thesis using Running t1 by simp
  next
    case (Stopped r s1)
    then have "stopped_with (run_step p st t) = Some r" using step by simp
    then obtain t1 where t1: "run_step p st t = Stopped r t1"
      by (cases "run_step p st t") simp_all
    show ?thesis using step Stopped t1 by simp
  qed
qed


lemma state_macro_fields:
  "passed (state_of (state_macro p stmt oc s)) = passed s"
  "failed (state_of (state_macro p stmt oc s)) = failed s"
  "is_silent (state_of (state_macro p stmt oc s)) = is_silent s"
  "keep_files (state_of (state_macro p stmt oc s)) = keep_files s"
  "is_silent s \<noteq> 0 \<Longrightarrow> stdout (state_of (state_macro p stmt oc s)) = stdout s"
  by (cases oc; simp add: state_macro_def print_statement_c_def printf_def
        deliver_SIGABRT_def sig_abrt_handler_def Let_def split: disposition.splits)+

lemma print_note_fields:
  "passed (print_note name s) = passed s" "failed (print_note name s) = failed s"
  "is_silent (print_note name s) = is_silent s"
  "keep_files (print_note name s) = keep_files s"
  "is_silent s \<noteq> 0 \<Longrightarrow> stdout (print_note name s) = stdout s"
  by (simp_all add: print_note_def printf_def)

lemma run_step_passed:
  "passed (state_of (run_step p st s)) =
     passed s + (if is_assertion st \<and> \<not> is_failure st then 1 else 0)"
  by (cases st)
     (simp_all add: print_note_fields state_macro_fields test_macro_passed
        state_of_must_macro print_must_fields)

lemma run_step_failed:
  "failed (state_of (run_step p st s)) = failed s + (if is_failure st then 1 else 0)"
  by (cases st)
     (simp_all add: print_note_fields state_macro_fields test_macro_failed
        state_of_must_macro print_must_fields)

lemma run_step_is_silent:
  "is_silent (state_of (run_step p st s)) = is_silent s"
  by (cases st)
     (simp_all add: print_note_fields state_macro_fields test_macro_is_silent
        state_of_must_macro print_must_fields)

lemma run_step_silent:
  "is_silent s \<noteq> 0 \<Longrightarrow> stdout (state_of (run_step p st s)) = stdout s"
  by (cases st)
     (simp_all add: print_note_fields state_macro_fields test_macro_silent
        state_of_must_macro print_must_fields print_must_def)

lemma run_Cons:
  "run p (st # sts) s =
     (if stopped_with (run_step p st s) = None then run p sts (state_of (run_step p st s))
      else run_step p st s)"
  by (cases "run_step p st s") simp_all

lemma run_is_silent: "is_silent (state_of (run p steps s)) = is_silent s"
  by (induction steps arbitrary: s) (simp_all add: run_Cons run_step_is_silent del: run.simps(2))

lemma run_silent:
  "is_silent s \<noteq> 0 \<Longrightarrow> stdout (state_of (run p steps s)) = stdout s"
  by (induction steps arbitrary: s)
     (simp_all add: run_Cons run_step_is_silent run_step_silent del: run.simps(2))

lemma run_failed:
  "run p steps s = Running s' \<Longrightarrow> failed s' = failed s + of_nat (failures steps)"
proof (induction steps arbitrary: s)
  case Nil
  then show ?case by (simp add: failures_def)
next
  case (Cons st steps)
  from Cons.prems have r: "run p steps (state_of (run_step p st s)) = Running s'"
    by (simp add: run_Cons del: run.simps(2) split: if_splits)
  show ?case
    using Cons.IH [OF r] by (simp add: run_step_failed failures_def)
qed

lemma run_passed:
  "run p steps s = Running s' \<Longrightarrow>
   passed s' = passed s + of_nat (assertions steps - failures steps)"
proof (induction steps arbitrary: s)
  case Nil
  then show ?case by (simp add: failures_def assertions_def)
next
  case (Cons st steps)
  from Cons.prems have r: "run p steps (state_of (run_step p st s)) = Running s'"
    by (simp add: run_Cons del: run.simps(2) split: if_splits)
  have le: "failures steps \<le> assertions steps"
    unfolding failures_def assertions_def
    by (induction steps) (auto elim: is_failure.elims)
  have f: "is_failure st \<Longrightarrow> is_assertion st" by (cases st) simp_all
  show ?case
    using Cons.IH [OF r] le f
    by (auto simp: run_step_passed failures_def assertions_def Suc_diff_le)
qed

lemma failures_le_assertions: "failures steps \<le> assertions steps"
  unfolding failures_def assertions_def
  by (induction steps) (auto elim: is_failure.elims)

lemma evaluation_states_armed:
  "t \<in> set (evaluation_states p steps s) \<Longrightarrow> sigabrt t = Handler \<and> jmpbuf_active t = 1"
proof (induction steps arbitrary: s)
  case Nil
  then show ?case by simp
next
  case (Cons st steps)
  have here: "\<And>u. u \<in> set (evaluation_state st s) \<Longrightarrow> sigabrt u = Handler \<and> jmpbuf_active u = 1"
    by (cases st) (auto simp: test_arm_def signal_SIGABRT_def Let_def)
  from Cons.prems show ?case
    using here Cons.IH by (cases "run_step p st s") auto
qed

subsection \<open>The signal handler\<close>

lemmas eval_defs =
  initial_def linux_def sysv_def must_macro_def state_macro_def print_must_def print_note_def
  print_statement_c_def test_macro_def test_arm_def test_passed_through_def test_caught_def
  test_disarm_def unit_tester_def signal_SIGABRT_def deliver_SIGABRT_def sig_abrt_handler_def
  print_caught_signal_name_eq printf_def Let_def

text \<open>
  C10. \<^verbatim>\<open>sig_abrt_handler\<close> stores the signal number in \<^verbatim>\<open>caught_signal\<close> whatever
  \<^verbatim>\<open>jmpbuf_active\<close> is. When \<^verbatim>\<open>jmpbuf_active\<close> is 0 that store is all it does and it
  returns without \<^verbatim>\<open>longjmp\<close>; so a \<^verbatim>\<open>SIGABRT\<close> delivered while the handler is
  installed and no recovery point is armed changes \<^verbatim>\<open>caught_signal\<close> and the handler
  returns.
\<close>

theorem handler_records_signal_unconditionally:
  "caught_signal (fst (sig_abrt_handler sig s)) = sig \<and>
   (jmpbuf_active s = 0 \<longrightarrow> sig_abrt_handler sig s = (s\<lparr>caught_signal := sig\<rparr>, False)) \<and>
   (jmpbuf_active s \<noteq> 0 \<longrightarrow> snd (sig_abrt_handler sig s)) \<and>
   (sigabrt s = Handler \<and> jmpbuf_active s = 0 \<longrightarrow>
      (\<exists>s'. deliver_SIGABRT p s = Returned s' \<and> caught_signal s' = int (SIGABRT p) \<and>
            jmpbuf_active s' = 0))"
  by (simp add: sig_abrt_handler_def deliver_SIGABRT_def Let_def)

theorem handler_records_signal_unconditionally_witness:
  "jmpbuf_active (snd (unit_test_start linux ''libforth'' initial)) = 0 \<and>
   sigabrt (snd (unit_test_start linux ''libforth'' initial)) = Handler \<and>
   sig_abrt_handler 6 (snd (unit_test_start linux ''libforth'' initial))
     = ((snd (unit_test_start linux ''libforth'' initial))\<lparr>caught_signal := 6\<rparr>, False) \<and>
   caught_signal (state_of (main linux [''unit''] abort_in_first_statement)) = 6"
proof -
  let ?s = "snd (unit_test_start linux ''libforth'' initial)"
  have a: "jmpbuf_active ?s = 0" "sigabrt ?s = Handler"
    by (simp_all add: unit_test_start_def signal_SIGABRT_def initial_def printf_def)
  have "caught_signal (state_of (main linux [''unit''] abort_in_first_statement)) = 6"
    by (simp add: main_def main_body_def unit_test_start_def libforth_suite_def
        suite_interface_def abort_in_first_statement_def eval_defs)
  then show ?thesis
    using handler_records_signal_unconditionally [of 6 ?s linux] a by simp
qed

subsection \<open>The result of an interrupted assertion\<close>

text \<open>
  C1. A \<^verbatim>\<open>test\<close> whose evaluation is interrupted by the abort signal counts a failure
  but stores the value of \<^verbatim>\<open>unit_tester\<close> in \<^verbatim>\<open>current_line\<close>, not in
  \<^verbatim>\<open>current_result\<close>: after a passing test followed by an interrupted one,
  \<^verbatim>\<open>current_result\<close> is still 1 and \<^verbatim>\<open>current_line\<close> is 0. An interrupted
  \<^verbatim>\<open>must\<close> in the same place does not stop the process.
\<close>

theorem caught_signal_keeps_current_result:
  "stopped_with (run linux stale_test initial) = None \<and>
   passed (state_of (run linux stale_test initial)) = 1 \<and>
   failed (state_of (run linux stale_test initial)) = 1 \<and>
   current_result (state_of (run linux stale_test initial)) = 1 \<and>
   current_line (state_of (run linux stale_test initial)) = 0 \<and>
   stopped_with (run linux (take 2 stale_must) initial) = None"
  by (simp add: stale_test_def stale_must_def eval_defs)

text \<open>
  C4. A \<^verbatim>\<open>must\<close> whose evaluation is interrupted right after a passing test is counted
  as failed, yet the run goes on and the assertion after it is counted too.
\<close>

theorem failed_must_continues:
  "stopped_with (run linux stale_must initial) = None \<and>
   passed (state_of (run linux stale_must initial)) = 2 \<and>
   failed (state_of (run linux stale_must initial)) = 1"
  by (simp add: stale_must_def eval_defs)

subsection \<open>The tally\<close>

text \<open>
  C3. Every \<^verbatim>\<open>test\<close> and every \<^verbatim>\<open>must\<close>, whether its expression returns or is
  interrupted by the abort signal, adds one to exactly one of \<^verbatim>\<open>passed\<close> and
  \<^verbatim>\<open>failed\<close> and leaves the other as it was. After a run of a sequence of steps that
  reaches its end, \<^verbatim>\<open>passed + failed\<close> has grown by the number of assertions of the
  sequence (in the arithmetic of \<^verbatim>\<open>unsigned\<close>), and from zeroed counters the two
  counters add up to that number as long as it is below \<open>2 ^ 32\<close>.
\<close>

theorem every_assertion_counted_once:
  "(let s1 = state_of (test_macro p expr line oc s);
        a = (passed s1 = passed s + 1 \<and> failed s1 = failed s);
        b = (passed s1 = passed s \<and> failed s1 = failed s + 1)
    in (a \<or> b) \<and> \<not> (a \<and> b)) \<and>
   (let s1 = state_of (must_macro p must expr line oc s);
        a = (passed s1 = passed s + 1 \<and> failed s1 = failed s);
        b = (passed s1 = passed s \<and> failed s1 = failed s + 1)
    in (a \<or> b) \<and> \<not> (a \<and> b)) \<and>
   (run p steps s = Running s' \<longrightarrow>
      passed s' + failed s' = passed s + failed s + of_nat (assertions steps)) \<and>
   (run p steps s = Running s' \<and> passed s = 0 \<and> failed s = 0 \<and> assertions steps < 2 ^ 32 \<longrightarrow>
      unat (passed s') + unat (failed s') = assertions steps)"
proof -
  have t: "let s1 = state_of (test_macro p expr line oc s);
        a = (passed s1 = passed s + 1 \<and> failed s1 = failed s);
        b = (passed s1 = passed s \<and> failed s1 = failed s + 1)
    in (a \<or> b) \<and> \<not> (a \<and> b)"
    by (simp add: Let_def test_macro_passed test_macro_failed)
  have m: "let s1 = state_of (must_macro p must expr line oc s);
        a = (passed s1 = passed s + 1 \<and> failed s1 = failed s);
        b = (passed s1 = passed s \<and> failed s1 = failed s + 1)
    in (a \<or> b) \<and> \<not> (a \<and> b)"
    by (simp add: Let_def state_of_must_macro test_macro_passed test_macro_failed
        print_must_fields)
  have r: "passed s' + failed s' = passed s + failed s + of_nat (assertions steps)"
    if run: "run p steps s = Running s'"
  proof -
    have "assertions steps = (assertions steps - failures steps) + failures steps"
      using failures_le_assertions [of steps] by simp
    then have "(of_nat (assertions steps) :: unsigned) =
        of_nat (assertions steps - failures steps) + of_nat (failures steps)"
      by (metis of_nat_add)
    then show ?thesis
      using run_passed [OF run] run_failed [OF run] by simp
  qed
  have n: "unat (passed s') + unat (failed s') = assertions steps"
    if run: "run p steps s = Running s'" and z: "passed s = 0" "failed s = 0"
      and small: "assertions steps < 2 ^ 32"
  proof -
    have le: "failures steps \<le> assertions steps" by (rule failures_le_assertions)
    have "unat (passed s') = assertions steps - failures steps"
      using run_passed [OF run] z small by (simp add: unat_of_nat)
    moreover have "unat (failed s') = failures steps"
      using run_failed [OF run] z small le by (simp add: unat_of_nat)
    ultimately show ?thesis using le by simp
  qed
  show ?thesis using t m r n by blast
qed

theorem every_assertion_counted_once_witness:
  "run linux four_assertions initial = Running (state_of (run linux four_assertions initial)) \<and>
   assertions four_assertions = 4 \<and>
   passed (state_of (run linux four_assertions initial)) = 2 \<and>
   failed (state_of (run linux four_assertions initial)) = 2 \<and>
   unat (passed (state_of (run linux four_assertions initial)))
     + unat (failed (state_of (run linux four_assertions initial))) = 4"
proof -
  let ?s = "state_of (run linux four_assertions initial)"
  have stop: "stopped_with (run linux four_assertions initial) = None"
    by code_simp
  have run: "run linux four_assertions initial = Running ?s"
    using stop by (rule proc_cases)
  have n: "assertions four_assertions = 4"
    by (simp add: four_assertions_def assertions_def)
  have p: "passed ?s = 2" "failed ?s = 2"
    by code_simp+
  have z: "passed initial = 0" "failed initial = 0" by (simp_all add: initial_def)
  show ?thesis
    using every_assertion_counted_once [of linux "''f''" 225 "Returns 1" initial "''f''"
        four_assertions ?s] run n p z
    by simp
qed

subsection \<open>Arming and disarming the trap\<close>

lemma deliver_armed:
  "\<exists>s2. deliver_SIGABRT p (test_arm expr line s) = Jumped s2 \<and>
     sigabrt s2 = (if resets_on_delivery p then SIG_DFL else Handler) \<and>
     jmpbuf_active s2 = 0 \<and> caught_signal s2 = int (SIGABRT p)"
  by (simp add: deliver_SIGABRT_def test_arm_def signal_SIGABRT_def sig_abrt_handler_def Let_def)

lemma test_caught_installs:
  "\<exists>s3. test_caught p s2 = Inr s3 \<and> sigabrt s3 = Handler"
  by (simp add: test_caught_def print_caught_signal_name_eq unit_tester_def signal_SIGABRT_def
      printf_def Let_def)

lemma test_macro_caught_signal:
  "caught_signal (state_of (test_macro p expr line oc s)) =
     (case oc of Returns v \<Rightarrow> caught_signal s | Aborts \<Rightarrow> int (SIGABRT p))"
  by (cases oc) (simp_all add: macro_defs)

lemma test_macro_Aborts:
  "deliver_SIGABRT p (test_arm expr line s) = Jumped s2 \<Longrightarrow> test_caught p s2 = Inr s3 \<Longrightarrow>
   test_macro p expr line Aborts s = Running (test_disarm s3)"
  by (simp add: test_macro_def Let_def)

lemma stopped_with_test_macro: "stopped_with (test_macro p expr line oc s) = None"
  using test_macro_Running [of p expr line oc s] by auto

lemma caught_signal_print_must [simp]: "caught_signal (print_must must s) = caught_signal s"
  by (simp add: print_must_def printf_def)

text \<open>
  C5, as stated, fails: when an interrupted \<^verbatim>\<open>test\<close> has completed, the disposition of
  \<^verbatim>\<open>SIGABRT\<close> is the default one, on a platform that keeps the disposition on
  delivery as on one that resets it, and a statement that aborts right after it ends
  the process.
\<close>

theorem handler_not_installed_after_caught_signal:
  "failed (state_of (run linux (take 1 abort_then_test) initial)) = 1 \<and>
   sigabrt (state_of (run linux (take 1 abort_then_test) initial)) = SIG_DFL \<and>
   sigabrt (state_of (run sysv (take 1 abort_then_test) initial)) = SIG_DFL \<and>
   stopped_with (run linux abort_then_abort initial) = Some (Signalled 6)"
  by code_simp

text \<open>
  C5, amended. When the evaluation of a \<^verbatim>\<open>test\<close> raises the abort signal, the handler
  jumps back and the branch of the caught signal installs the handler again (it is the
  default disposition at that moment on a platform that resets it on delivery); the
  last lines of the macro then set the default disposition, which is what the completed
  macro leaves, with one more failure counted and the signal recorded. A later
  \<^verbatim>\<open>test\<close> or \<^verbatim>\<open>must\<close> is protected all the same, by the handler it installs on
  its own entry: from any state its expression is evaluated with the handler installed
  and the recovery point armed, and if that evaluation raises the abort signal the
  signal is caught and counted as a failure, the process not being ended by it.
\<close>

theorem handler_installed_by_each_assertion:
  "(\<exists>s2 s3. deliver_SIGABRT p (test_arm expr line s) = Jumped s2 \<and>
       sigabrt s2 = (if resets_on_delivery p then SIG_DFL else Handler) \<and>
       test_caught p s2 = Inr s3 \<and> sigabrt s3 = Handler \<and>
       test_macro p expr line Aborts s = Running (test_disarm s3) \<and>
       sigabrt (test_disarm s3) = SIG_DFL \<and>
       failed (test_disarm s3) = failed s + 1 \<and>
       caught_signal (test_disarm s3) = int (SIGABRT p)) \<and>
   (\<forall>t \<in> set (evaluation_states p (Test expr line Aborts # steps) s).
       sigabrt t = Handler \<and> jmpbuf_active t = 1) \<and>
   (\<exists>u'. test_macro p expr' line' Aborts u = Running u' \<and> failed u' = failed u + 1 \<and>
       passed u' = passed u \<and> caught_signal u' = int (SIGABRT p)) \<and>
   (stopped_with (must_macro p must' expr' line' Aborts u) = None \<or>
    stopped_with (must_macro p must' expr' line' Aborts u) = Some (Exit (- 1))) \<and>
   failed (state_of (must_macro p must' expr' line' Aborts u)) = failed u + 1 \<and>
   caught_signal (state_of (must_macro p must' expr' line' Aborts u)) = int (SIGABRT p)"
proof -
  obtain s2 where s2: "deliver_SIGABRT p (test_arm expr line s) = Jumped s2"
    "sigabrt s2 = (if resets_on_delivery p then SIG_DFL else Handler)"
    using deliver_armed by blast
  obtain s3 where s3: "test_caught p s2 = Inr s3" "sigabrt s3 = Handler"
    using test_caught_installs by blast
  have m: "test_macro p expr line Aborts s = Running (test_disarm s3)"
    using s2(1) s3(1) by (rule test_macro_Aborts)
  have d: "sigabrt (test_disarm s3) = SIG_DFL"
    by (simp add: test_disarm_def signal_SIGABRT_def)
  have f: "failed (test_disarm s3) = failed s + 1"
    using test_macro_failed [of p expr line Aborts s] m by simp
  have c: "caught_signal (test_disarm s3) = int (SIGABRT p)"
    using test_macro_caught_signal [of p expr line Aborts s] m by simp
  have first: "\<exists>s2 s3. deliver_SIGABRT p (test_arm expr line s) = Jumped s2 \<and>
       sigabrt s2 = (if resets_on_delivery p then SIG_DFL else Handler) \<and>
       test_caught p s2 = Inr s3 \<and> sigabrt s3 = Handler \<and>
       test_macro p expr line Aborts s = Running (test_disarm s3) \<and>
       sigabrt (test_disarm s3) = SIG_DFL \<and>
       failed (test_disarm s3) = failed s + 1 \<and>
       caught_signal (test_disarm s3) = int (SIGABRT p)"
    using s2 s3 m d f c by blast
  have states: "\<forall>t \<in> set (evaluation_states p (Test expr line Aborts # steps) s).
       sigabrt t = Handler \<and> jmpbuf_active t = 1"
    using evaluation_states_armed by blast
  obtain u' where u': "test_macro p expr' line' Aborts u = Running u'"
    using test_macro_Running by blast
  have later: "\<exists>u'. test_macro p expr' line' Aborts u = Running u' \<and> failed u' = failed u + 1 \<and>
       passed u' = passed u \<and> caught_signal u' = int (SIGABRT p)"
    using u' test_macro_failed [of p expr' line' Aborts u]
      test_macro_passed [of p expr' line' Aborts u]
      test_macro_caught_signal [of p expr' line' Aborts u]
    by simp
  have must_stop: "stopped_with (must_macro p must' expr' line' Aborts u) = None \<or>
      stopped_with (must_macro p must' expr' line' Aborts u) = Some (Exit (- 1))"
    by (simp add: stopped_with_must_macro)
  have must_failed: "failed (state_of (must_macro p must' expr' line' Aborts u)) = failed u + 1"
    by (simp add: state_of_must_macro test_macro_failed print_must_fields)
  have must_caught:
    "caught_signal (state_of (must_macro p must' expr' line' Aborts u)) = int (SIGABRT p)"
    by (simp add: state_of_must_macro test_macro_caught_signal)
  show ?thesis
    using first states later must_stop must_failed must_caught by blast
qed

theorem handler_installed_by_each_assertion_witness:
  "length (evaluation_states sysv abort_then_test initial) = 2 \<and>
   sigabrt (evaluation_states sysv abort_then_test initial ! 1) = Handler \<and>
   sigabrt (state_of (test_macro sysv ''forth_eval(f, \"2 2 + \") >= 0'' 234 Aborts initial))
     = SIG_DFL \<and>
   failed (state_of (test_macro sysv ''forth_eval(f, \"2 2 + \") >= 0'' 234 Aborts initial)) = 1"
proof -
  have split: "abort_then_test = Test ''forth_eval(f, \"2 2 + \") >= 0'' 234 Aborts # tl abort_then_test"
    by (simp add: abort_then_test_def)
  have len: "length (evaluation_states sysv abort_then_test initial) = 2"
    by code_simp
  then have mem: "evaluation_states sysv abort_then_test initial ! 1
      \<in> set (evaluation_states sysv abort_then_test initial)"
    by simp
  have z: "failed initial = 0" by (simp add: initial_def)
  note inst = handler_installed_by_each_assertion
      [of sysv "''forth_eval(f, \"2 2 + \") >= 0''" 234 initial "tl abort_then_test"
          "''f''" 225 initial "''f''"]
  have all: "\<forall>t \<in> set (evaluation_states sysv abort_then_test initial).
       sigabrt t = Handler \<and> jmpbuf_active t = 1"
    using inst unfolding split [symmetric] by blast
  obtain s3 where s3:
    "test_macro sysv ''forth_eval(f, \"2 2 + \") >= 0'' 234 Aborts initial = Running (test_disarm s3)"
    "sigabrt (test_disarm s3) = SIG_DFL" "failed (test_disarm s3) = failed initial + 1"
    using inst by blast
  show ?thesis using all mem len s3 z by simp
qed

text \<open>
  C9. Whatever the outcome of its expression, \<^verbatim>\<open>test\<close> completes and leaves
  \<^verbatim>\<open>jmpbuf_active\<close> at 0 and the disposition of \<^verbatim>\<open>SIGABRT\<close> at the default. The
  printing between assertions does not change it, so an abort signal there meets the
  default disposition and a statement that aborts ends the process. The next
  \<^verbatim>\<open>test\<close> or \<^verbatim>\<open>must\<close> installs the handler again on entry: from the state the
  first one left, and after any printing, a \<^verbatim>\<open>test\<close> or \<^verbatim>\<open>must\<close> whose evaluation
  raises the abort signal catches it, counts a failure, and again leaves the trap
  disarmed.
\<close>

theorem trap_disarmed_after_test:
  "\<exists>s'. test_macro p expr line oc s = Running s' \<and>
      jmpbuf_active s' = 0 \<and> sigabrt s' = SIG_DFL \<and>
      deliver_SIGABRT p s' = Default s' \<and>
      sigabrt (print_statement_c stmt s') = SIG_DFL \<and>
      sigabrt (print_note name s') = SIG_DFL \<and>
      stopped_with (state_macro p stmt Aborts s') = Some (Signalled (SIGABRT p)) \<and>
      sigabrt (test_arm expr' line' s') = Handler \<and>
      sigabrt (test_arm expr' line' (print_must must' s')) = Handler \<and>
      (\<exists>s2. deliver_SIGABRT p (test_arm expr' line' s') = Jumped s2) \<and>
      (\<exists>s''. test_macro p expr' line' Aborts s' = Running s'' \<and>
         failed s'' = failed s' + 1 \<and> passed s'' = passed s' \<and>
         caught_signal s'' = int (SIGABRT p) \<and>
         jmpbuf_active s'' = 0 \<and> sigabrt s'' = SIG_DFL) \<and>
      (\<exists>s''. test_macro p expr' line' Aborts (print_statement_c stmt s') = Running s'' \<and>
         failed s'' = failed s' + 1 \<and> caught_signal s'' = int (SIGABRT p)) \<and>
      stopped_with (must_macro p must' expr' line' Aborts s') \<noteq> Some (Signalled (SIGABRT p)) \<and>
      failed (state_of (must_macro p must' expr' line' Aborts s')) = failed s' + 1 \<and>
      caught_signal (state_of (must_macro p must' expr' line' Aborts s')) = int (SIGABRT p) \<and>
      jmpbuf_active (state_of (must_macro p must' expr' line' Aborts s')) = 0 \<and>
      sigabrt (state_of (must_macro p must' expr' line' Aborts s')) = SIG_DFL"
proof -
  obtain s' where s': "test_macro p expr line oc s = Running s'"
    using test_macro_Running by blast
  have d: "jmpbuf_active s' = 0" "sigabrt s' = SIG_DFL"
    using test_macro_disarmed [of p expr line oc s] s' by simp_all
  have a: "deliver_SIGABRT p s' = Default s'"
    using d by (simp add: deliver_SIGABRT_def)
  have b: "sigabrt (print_statement_c stmt s') = SIG_DFL"
    "sigabrt (print_note name s') = SIG_DFL"
    using d by (simp_all add: print_statement_c_def print_note_def printf_def)
  have c: "stopped_with (state_macro p stmt Aborts s') = Some (Signalled (SIGABRT p))"
    using d by (simp add: state_macro_def deliver_SIGABRT_def print_statement_c_def printf_def)
  have e: "sigabrt (test_arm expr' line' s') = Handler"
    "sigabrt (test_arm expr' line' (print_must must' s')) = Handler"
    by (simp_all add: test_arm_def signal_SIGABRT_def Let_def)
  have j: "\<exists>s2. deliver_SIGABRT p (test_arm expr' line' s') = Jumped s2"
    using deliver_armed by blast
  obtain s'' where s'': "test_macro p expr' line' Aborts s' = Running s''"
    using test_macro_Running by blast
  have n: "\<exists>s''. test_macro p expr' line' Aborts s' = Running s'' \<and>
         failed s'' = failed s' + 1 \<and> passed s'' = passed s' \<and>
         caught_signal s'' = int (SIGABRT p) \<and>
         jmpbuf_active s'' = 0 \<and> sigabrt s'' = SIG_DFL"
    using s'' test_macro_failed [of p expr' line' Aborts s']
      test_macro_passed [of p expr' line' Aborts s']
      test_macro_caught_signal [of p expr' line' Aborts s']
      test_macro_disarmed [of p expr' line' Aborts s']
    by simp
  obtain s3 where s3: "test_macro p expr' line' Aborts (print_statement_c stmt s') = Running s3"
    using test_macro_Running by blast
  have fs: "failed (print_statement_c stmt s') = failed s'"
    by (simp add: print_statement_c_def printf_def)
  have o: "\<exists>s''. test_macro p expr' line' Aborts (print_statement_c stmt s') = Running s'' \<and>
         failed s'' = failed s' + 1 \<and> caught_signal s'' = int (SIGABRT p)"
    using s3 test_macro_failed [of p expr' line' Aborts "print_statement_c stmt s'"]
      test_macro_caught_signal [of p expr' line' Aborts "print_statement_c stmt s'"] fs
    by simp
  have m1: "stopped_with (must_macro p must' expr' line' Aborts s') \<noteq> Some (Signalled (SIGABRT p))"
    by (simp add: stopped_with_must_macro)
  have m2: "failed (state_of (must_macro p must' expr' line' Aborts s')) = failed s' + 1"
    by (simp add: state_of_must_macro test_macro_failed print_must_fields)
  have m3: "caught_signal (state_of (must_macro p must' expr' line' Aborts s')) = int (SIGABRT p)"
    by (simp add: state_of_must_macro test_macro_caught_signal)
  have m4: "jmpbuf_active (state_of (must_macro p must' expr' line' Aborts s')) = 0"
    "sigabrt (state_of (must_macro p must' expr' line' Aborts s')) = SIG_DFL"
    using test_macro_disarmed [of p expr' line' Aborts "print_must must' s'"]
    by (simp_all add: state_of_must_macro)
  show ?thesis using s' d a b c e j n o m1 m2 m3 m4 by blast
qed

theorem trap_disarmed_after_test_witness:
  "jmpbuf_active (state_of (run linux (take 1 abort_then_test) initial)) = 0 \<and>
   sigabrt (state_of (run linux (take 1 abort_then_test) initial)) = SIG_DFL \<and>
   stopped_with (run linux abort_then_abort initial) = Some (Signalled 6) \<and>
   failed (state_of (run linux [Test ''f'' 225 Aborts, Test ''f'' 225 Aborts] initial)) = 2"
proof -
  have a: "run linux (take 1 abort_then_test) initial
      = test_macro linux ''forth_eval(f, \"2 2 + \") >= 0'' 234 Aborts initial"
    using test_macro_Running [of linux "''forth_eval(f, \"2 2 + \") >= 0''" 234 Aborts initial]
    by (auto simp: abort_then_test_def)
  have b: "stopped_with (run linux abort_then_abort initial) = Some (Signalled 6)"
    by code_simp
  have c: "failed (state_of (run linux [Test ''f'' 225 Aborts, Test ''f'' 225 Aborts] initial)) = 2"
    by code_simp
  show ?thesis
    using trap_disarmed_after_test
      [of linux "''forth_eval(f, \"2 2 + \") >= 0''" 234 Aborts initial "''forth_free(f)''"
          "''x''" "''f''" 225 "''f''"]
    unfolding a using b c by auto
qed

subsection \<open>The driver\<close>

lemma parse_args_tally:
  "passed (state_of (parse_args argv0 args s)) = passed s \<and>
   failed (state_of (parse_args argv0 args s)) = failed s \<and>
   stdout (state_of (parse_args argv0 args s)) = stdout s"
  by (induction argv0 args s rule: parse_args.induct)
     (auto simp: fprintf_stderr_def split: list.splits)

lemma parse_args_stays_silent:
  "is_silent s \<noteq> 0 \<Longrightarrow> is_silent (state_of (parse_args argv0 args s)) \<noteq> 0"
  by (induction argv0 args s rule: parse_args.induct)
     (auto simp: fprintf_stderr_def split: list.splits)

lemma silent_equiv_updates:
  assumes "silent_equiv s t"
  shows "silent_equiv (s\<lparr>is_silent := a\<rparr>) (t\<lparr>is_silent := b\<rparr>)"
    and "silent_equiv (s\<lparr>color_on := c\<rparr>) (t\<lparr>color_on := c\<rparr>)"
    and "silent_equiv (s\<lparr>keep_files := k\<rparr>) (t\<lparr>keep_files := k\<rparr>)"
    and "silent_equiv (fprintf_stderr x s) (fprintf_stderr x t)"
  using assms by (simp_all add: silent_equiv_def fprintf_stderr_def)

lemma parse_args_silent_equiv:
  "silent_equiv s t \<Longrightarrow>
   silent_equiv (state_of (parse_args argv0 args s)) (state_of (parse_args argv0 args t)) \<and>
   stopped_with (parse_args argv0 args s) = stopped_with (parse_args argv0 args t)"
proof (induction argv0 args s arbitrary: t rule: parse_args.induct)
  case (1 argv0 s)
  then show ?case by simp
next
  case (2 argv0 args s)
  then show ?case by simp
next
  case (3 argv0 c0 rest args s)
  show ?case
  proof (cases rest)
    case Nil
    then show ?thesis using "3.prems" by simp
  next
    case (Cons c1 cs)
    show ?thesis
      using "3.IH" [OF _ Cons] silent_equiv_updates(1-3) [OF "3.prems"] "3.prems" Cons
      by (simp add: silent_equiv_updates(4))
  qed
qed


lemma test_macro_keep_files:
  "keep_files (state_of (test_macro p expr line oc s)) = keep_files s"
  by (cases oc) (simp_all add: macro_defs)

lemma run_step_keep_files: "keep_files (state_of (run_step p st s)) = keep_files s"
  by (cases st)
     (simp_all add: print_note_fields state_macro_fields test_macro_keep_files
        state_of_must_macro print_must_def printf_def)

lemma run_keep_files: "keep_files (state_of (run p steps s)) = keep_files s"
  by (induction steps arbitrary: s) (simp_all add: run_Cons run_step_keep_files del: run.simps(2))

lemma unit_test_start_fields:
  "passed (snd (unit_test_start p name s)) = passed s"
  "failed (snd (unit_test_start p name s)) = failed s"
  "keep_files (snd (unit_test_start p name s)) = keep_files s"
  "is_silent (snd (unit_test_start p name s)) = is_silent s"
  "is_silent s \<noteq> 0 \<Longrightarrow> stdout (snd (unit_test_start p name s)) = stdout s"
  by (simp_all add: unit_test_start_def signal_SIGABRT_def printf_def)

lemma unit_test_start_silent_equiv:
  "silent_equiv s t \<Longrightarrow>
   silent_equiv (snd (unit_test_start p name s)) (snd (unit_test_start p name t))"
  by (simp add: silent_equiv_def unit_test_start_def signal_SIGABRT_def printf_def)

lemma unit_test_end_fields:
  "fst (unit_test_end p name s) = failed s"
  "passed (snd (unit_test_end p name s)) = passed s"
  "failed (snd (unit_test_end p name s)) = failed s"
  "is_silent s \<noteq> 0 \<Longrightarrow> stdout (snd (unit_test_end p name s)) = stdout s"
  by (simp_all add: unit_test_end_def printf_def)

lemma unit_test_end_silent_equiv:
  "silent_equiv s t \<Longrightarrow>
   silent_equiv (snd (unit_test_end p name s)) (snd (unit_test_end p name t))"
  by (simp add: silent_equiv_def unit_test_end_def printf_def)

lemma main_body_Cons:
  "main_body p (argv0 # args) ev =
     (if stopped_with (parse_args argv0 args initial) = None
      then run p (libforth_suite (keep_files (state_of (parse_args argv0 args initial))) ev)
             (snd (unit_test_start p ''libforth'' (state_of (parse_args argv0 args initial))))
      else parse_args argv0 args initial)"
  by (cases "parse_args argv0 args initial")
     (simp_all add: main_body_def unit_test_start_fields Let_def)

lemma main_body_Nil:
  "main_body p [] ev =
     run p (libforth_suite 0 ev) (snd (unit_test_start p ''libforth'' initial))"
  by (simp add: main_body_def unit_test_start_fields Let_def initial_def)

lemma main_eq:
  "main p argv ev =
     (if stopped_with (main_body p argv ev) = None
      then Stopped (Exit (lnot (lnot (failed (state_of (main_body p argv ev))))))
             (snd (unit_test_end p ''libforth'' (state_of (main_body p argv ev))))
      else main_body p argv ev)"
  by (cases "main_body p argv ev") (simp_all add: main_def unit_test_end_def)

lemma main_body_failed:
  assumes "main_body p argv ev = Running s"
  shows "failed s = of_nat (failures (libforth_suite (keep_files s) ev))"
proof (cases argv)
  case Nil
  let ?s0 = "snd (unit_test_start p ''libforth'' initial)"
  have r: "run p (libforth_suite 0 ev) ?s0 = Running s"
    using assms Nil by (simp add: main_body_Nil)
  have "keep_files s = keep_files ?s0" using run_keep_files [of p "libforth_suite 0 ev" ?s0] r by simp
  then have k: "keep_files s = 0" by (simp add: unit_test_start_fields initial_def)
  show ?thesis using run_failed [OF r] k by (simp add: unit_test_start_fields initial_def)
next
  case (Cons argv0 args)
  let ?q = "state_of (parse_args argv0 args initial)"
  let ?s0 = "snd (unit_test_start p ''libforth'' ?q)"
  have r: "run p (libforth_suite (keep_files ?q) ev) ?s0 = Running s"
    using assms Cons by (simp add: main_body_Cons split: if_splits)
  have "keep_files s = keep_files ?s0"
    using run_keep_files [of p "libforth_suite (keep_files ?q) ev" ?s0] r by simp
  then have k: "keep_files s = keep_files ?q" by (simp add: unit_test_start_fields)
  have "failed ?q = 0" using parse_args_tally [of argv0 args initial] by (simp add: initial_def)
  then show ?thesis using run_failed [OF r] k by (simp add: unit_test_start_fields)
qed

lemma length_libforth_suite: "length (libforth_suite keep ev) \<le> 86"
  by (simp add: libforth_suite_def suite_interface_def suite_persistence_def suite_words_def
      suite_internals_def)

lemma failures_libforth_suite: "failures (libforth_suite keep ev) \<le> 86"
proof -
  have "failures (libforth_suite keep ev) \<le> length (libforth_suite keep ev)"
    by (simp add: failures_def)
  then show ?thesis using length_libforth_suite [of keep ev] by simp
qed


subsection \<open>The exit status\<close>

text \<open>
  C2, as stated, fails: with the tests of lines 230 and 231 failing and everything else
  passing, the run is completed, two assertions have failed, and the exit status is 1.
\<close>

theorem exit_status_is_not_failed_count:
  "stopped_with (main_body linux [''unit'', ''-s''] two_failures) = None \<and>
   failed (state_of (main_body linux [''unit'', ''-s''] two_failures)) = 2 \<and>
   failures (libforth_suite 0 two_failures) = 2 \<and>
   stopped_with (main linux [''unit'', ''-s''] two_failures) = Some (Exit 1)"
  by code_simp

text \<open>
  C2, amended. \<^verbatim>\<open>unit_test_end\<close> returns the \<^verbatim>\<open>failed\<close> counter, and a completed run
  exits with 0 when that counter is 0 and with 1 otherwise.
\<close>

theorem exit_status_from_failed_count:
  "fst (unit_test_end p name s) = failed s \<and>
   (main_body p argv ev = Running s \<longrightarrow>
      stopped_with (main p argv ev) = Some (Exit (if failed s = 0 then 0 else 1)))"
  by (simp add: unit_test_end_fields main_eq lnot_def)

theorem exit_status_from_failed_count_witness:
  "main_body linux [''unit'', ''-s''] all_pass = Running (state_of (main_body linux [''unit'', ''-s''] all_pass)) \<and>
   failed (state_of (main_body linux [''unit'', ''-s''] all_pass)) = 0 \<and>
   stopped_with (main linux [''unit'', ''-s''] all_pass) = Some (Exit 0)"
proof -
  let ?s = "state_of (main_body linux [''unit'', ''-s''] all_pass)"
  have "stopped_with (main_body linux [''unit'', ''-s''] all_pass) = None" by code_simp
  then have r: "main_body linux [''unit'', ''-s''] all_pass = Running ?s" by (rule proc_cases)
  have f: "failed ?s = 0" by code_simp
  show ?thesis
    using exit_status_from_failed_count [of linux "''libforth''" ?s "[''unit'', ''-s'']" all_pass] r f
    by simp
qed

text \<open>
  C8. When the body of \<^verbatim>\<open>main\<close> runs to its end, \<^verbatim>\<open>main\<close> returns the double
  negation of the \<^verbatim>\<open>failed\<close> counter. That counter is the number of failed assertions
  of the suite, so the value returned is 0 when none failed and 1 when one or more did:
  never more than 1.
\<close>

theorem main_returns_double_negation:
  "main_body p argv ev = Running s \<longrightarrow>
     main p argv ev = Stopped (Exit (lnot (lnot (failed s)))) (snd (unit_test_end p ''libforth'' s)) \<and>
     failed s = of_nat (failures (libforth_suite (keep_files s) ev)) \<and>
     lnot (lnot (failed s)) = (if failures (libforth_suite (keep_files s) ev) = 0 then 0 else 1) \<and>
     lnot (lnot (failed s)) \<le> 1"
proof
  assume r: "main_body p argv ev = Running s"
  define F where "F = failures (libforth_suite (keep_files s) ev)"
  have f: "failed s = of_nat F" unfolding F_def using r by (rule main_body_failed)
  have "F \<le> 86" unfolding F_def by (rule failures_libforth_suite)
  then have "F < 2 ^ 32" by simp
  then have u: "unat (failed s) = F" unfolding f by (simp add: unat_of_nat)
  have z: "failed s = 0 \<longleftrightarrow> F = 0"
  proof
    assume "failed s = 0"
    then have "unat (failed s) = 0" by simp
    then show "F = 0" using u by simp
  next
    assume "F = 0"
    then show "failed s = 0" unfolding f by simp
  qed
  have m: "main p argv ev = Stopped (Exit (lnot (lnot (failed s)))) (snd (unit_test_end p ''libforth'' s))"
    using r by (simp add: main_eq)
  have d: "lnot (lnot (failed s)) = (if F = 0 then 0 else 1)"
    using z by (simp add: lnot_def)
  have b: "lnot (lnot (failed s)) \<le> 1" by (simp add: lnot_def)
  show "main p argv ev = Stopped (Exit (lnot (lnot (failed s)))) (snd (unit_test_end p ''libforth'' s)) \<and>
     failed s = of_nat (failures (libforth_suite (keep_files s) ev)) \<and>
     lnot (lnot (failed s)) = (if failures (libforth_suite (keep_files s) ev) = 0 then 0 else 1) \<and>
     lnot (lnot (failed s)) \<le> 1"
    using m f d b unfolding F_def by blast
qed

theorem main_returns_double_negation_witness:
  "main_body linux [''unit'', ''-s''] two_failures
     = Running (state_of (main_body linux [''unit'', ''-s''] two_failures)) \<and>
   failed (state_of (main_body linux [''unit'', ''-s''] two_failures)) = 2 \<and>
   stopped_with (main linux [''unit'', ''-s''] two_failures) = Some (Exit 1)"
proof -
  let ?s = "state_of (main_body linux [''unit'', ''-s''] two_failures)"
  have "stopped_with (main_body linux [''unit'', ''-s''] two_failures) = None" by code_simp
  then have r: "main_body linux [''unit'', ''-s''] two_failures = Running ?s" by (rule proc_cases)
  have f: "failed ?s = 2" by code_simp
  show ?thesis
    using main_returns_double_negation [of linux "[''unit'', ''-s'']" two_failures ?s] r f
    by (simp add: lnot_def)
qed

subsection \<open>Silent mode\<close>

text \<open>
  C6. Two runs of the same steps from states that differ at most in \<^verbatim>\<open>is_silent\<close> and
  in what was printed stop in the same way (or both go on) and end in states that again
  differ at most there: the counters and every other variable are the same. A silent run
  prints nothing. In \<^verbatim>\<open>unit_tester\<close> itself the flag decides whether the line of
  the assertion is printed and nothing more. For \<^verbatim>\<open>main\<close>: with \<^verbatim>\<open>-s\<close> put in front of the arguments the exit
  status and the final counters are those of the run without it, and nothing is printed
  on the standard output.
\<close>

theorem silent_mode_noninterference:
  "(silent_equiv s t \<longrightarrow>
      fst (unit_tester v msg line s) = fst (unit_tester v msg line t) \<and>
      silent_equiv (snd (unit_tester v msg line s)) (snd (unit_tester v msg line t))) \<and>
   (is_silent s \<noteq> 0 \<longrightarrow> stdout (snd (unit_tester v msg line s)) = stdout s) \<and>
   (is_silent s = 0 \<longrightarrow> stdout (snd (unit_tester v msg line s)) \<noteq> stdout s) \<and>
   (silent_equiv s t \<longrightarrow>
      silent_equiv (state_of (run p steps s)) (state_of (run p steps t)) \<and>
      stopped_with (run p steps s) = stopped_with (run p steps t)) \<and>
   (is_silent s \<noteq> 0 \<longrightarrow> stdout (state_of (run p steps s)) = stdout s) \<and>
   stopped_with (main p (argv0 # ''-s'' # args) ev) = stopped_with (main p (argv0 # args) ev) \<and>
   silent_equiv (state_of (main p (argv0 # ''-s'' # args) ev)) (state_of (main p (argv0 # args) ev)) \<and>
   stdout (state_of (main p (argv0 # ''-s'' # args) ev)) = []"
proof -
  let ?i = "initial\<lparr>is_silent := 1\<rparr>"
  let ?a = "parse_args argv0 args ?i" and ?b = "parse_args argv0 args initial"
  let ?A = "main_body p (argv0 # ''-s'' # args) ev" and ?B = "main_body p (argv0 # args) ev"
  have i: "silent_equiv ?i initial" by (simp add: silent_equiv_def)
  have pa: "parse_args argv0 (''-s'' # args) initial = ?a" by simp
  note pe = parse_args_silent_equiv [OF i, of argv0 args]
  have kf: "keep_files (state_of ?a) = keep_files (state_of ?b)"
    using pe by (simp add: silent_equiv_def)
  have se: "silent_equiv (snd (unit_test_start p ''libforth'' (state_of ?a)))
      (snd (unit_test_start p ''libforth'' (state_of ?b)))"
    using pe by (simp add: unit_test_start_silent_equiv)
  have body: "silent_equiv (state_of ?A) (state_of ?B) \<and> stopped_with ?A = stopped_with ?B"
    using pe run_silent_equiv [OF se, of p "libforth_suite (keep_files (state_of ?b)) ev"]
    by (simp add: main_body_Cons pa kf del: parse_args.simps)
  have sa: "is_silent (state_of ?a) \<noteq> 0" "stdout (state_of ?a) = []"
    using parse_args_stays_silent [of ?i argv0 args] parse_args_tally [of argv0 args ?i]
    by (simp_all add: initial_def)
  have bs: "is_silent (state_of ?A) \<noteq> 0 \<and> stdout (state_of ?A) = []"
    using sa
    by (simp add: main_body_Cons pa run_is_silent run_silent unit_test_start_fields
        del: parse_args.simps)
  have m1: "stopped_with (main p (argv0 # ''-s'' # args) ev) = stopped_with (main p (argv0 # args) ev)"
    using body by (simp add: main_eq silent_equiv_def)
  have m2: "silent_equiv (state_of (main p (argv0 # ''-s'' # args) ev))
      (state_of (main p (argv0 # args) ev))"
    using body by (simp add: main_eq unit_test_end_silent_equiv)
  have m3: "stdout (state_of (main p (argv0 # ''-s'' # args) ev)) = []"
    using bs by (simp add: main_eq unit_test_end_fields)
  have u1: "silent_equiv s t \<longrightarrow>
      fst (unit_tester v msg line s) = fst (unit_tester v msg line t) \<and>
      silent_equiv (snd (unit_tester v msg line s)) (snd (unit_tester v msg line t))"
    by (simp add: silent_equiv_def unit_tester_def printf_def Let_def)
  have u2: "is_silent s \<noteq> 0 \<longrightarrow> stdout (snd (unit_tester v msg line s)) = stdout s"
    by (simp add: unit_tester_def Let_def)
  have u3: "is_silent s = 0 \<longrightarrow> stdout (snd (unit_tester v msg line s)) \<noteq> stdout s"
    by (simp add: unit_tester_def printf_def Let_def)
  show ?thesis
    using u1 u2 u3 run_silent_equiv [of s t p steps] run_silent [of s p steps] m1 m2 m3
    by blast
qed

theorem silent_mode_noninterference_witness:
  "silent_equiv (initial\<lparr>is_silent := 1\<rparr>) initial \<and>
   passed (state_of (run linux four_assertions (initial\<lparr>is_silent := 1\<rparr>)))
     = passed (state_of (run linux four_assertions initial)) \<and>
   failed (state_of (run linux four_assertions (initial\<lparr>is_silent := 1\<rparr>)))
     = failed (state_of (run linux four_assertions initial)) \<and>
   stdout (state_of (run linux four_assertions (initial\<lparr>is_silent := 1\<rparr>))) = [] \<and>
   stdout (state_of (run linux four_assertions initial)) \<noteq> [] \<and>
   stopped_with (main linux [''unit'', ''-s''] two_failures)
     = stopped_with (main linux [''unit''] two_failures)"
proof -
  let ?i = "initial\<lparr>is_silent := 1\<rparr>"
  have i: "silent_equiv ?i initial" by (simp add: silent_equiv_def)
  have s: "is_silent ?i \<noteq> 0" "stdout ?i = []" by (simp_all add: initial_def)
  have n: "stdout (state_of (run linux four_assertions initial)) \<noteq> []" by code_simp
  show ?thesis
    using silent_mode_noninterference [of ?i initial 1 "''f''" 225 linux four_assertions
        "''unit''" "[]" two_failures] i s n
    by (simp add: silent_equiv_def)
qed

end
